theory Spec2Isabelle
  imports Main "HOL-Library.Log_Nat"
begin

section \<open>Python strings and the regular expressions of script.py\<close>

text \<open>
  A Python \<open>str\<close> is a sequence of Unicode code points; it is modelled as a list of
  natural numbers. \<open>str\<close> turns an ASCII literal into such a list.
\<close>

type_synonym pystr = "nat list"

definition str :: "string \<Rightarrow> pystr" where
  "str s = map of_char s"

text \<open>
  \<open>\s\<close> in a \<open>str\<close> pattern: the code points for which Python's \<open>str.isspace\<close> holds.
\<close>

definition is_space :: "nat \<Rightarrow> bool" where
  "is_space c \<longleftrightarrow>
     (9 \<le> c \<and> c \<le> 13) \<or> (28 \<le> c \<and> c \<le> 32) \<or> c = 133 \<or> c = 160 \<or> c = 5760 \<or>
     (8192 \<le> c \<and> c \<le> 8202) \<or> c = 8232 \<or> c = 8233 \<or> c = 8239 \<or> c = 8287 \<or> c = 12288"

text \<open>\<open>[0-9]\<close> and \<open>[0-9,]\<close>: ASCII ranges, whatever the flags.\<close>

definition is_digit :: "nat \<Rightarrow> bool" where
  "is_digit c \<longleftrightarrow> 48 \<le> c \<and> c \<le> 57"

definition is_digit_comma :: "nat \<Rightarrow> bool" where
  "is_digit_comma c \<longleftrightarrow> is_digit c \<or> c = 44"

text \<open>\<open>["\']\<close>\<close>

definition is_quote :: "nat \<Rightarrow> bool" where
  "is_quote c \<longleftrightarrow> c = 34 \<or> c = 39"

text \<open>A literal character of a pattern compiled without \<open>re.I\<close>.\<close>

definition lit :: "nat \<Rightarrow> nat \<Rightarrow> bool" where
  "lit a c \<longleftrightarrow> c = a"

text \<open>
  A literal character of a pattern compiled with \<open>re.I\<close>: the subject's code point is
  lowercased and compared with the lowercased literal and its case equivalents. For the
  ASCII characters of the patterns of script.py that adds, beyond the two ASCII cases,
  U+0130 and U+0131 for \<open>i\<close> and U+017F for \<open>s\<close> (and U+212A for \<open>k\<close>).
\<close>

definition to_lower :: "nat \<Rightarrow> nat" where
  "to_lower a = (if 65 \<le> a \<and> a \<le> 90 then a + 32 else a)"

definition ci :: "nat \<Rightarrow> nat \<Rightarrow> bool" where
  "ci a c \<longleftrightarrow>
     (let l = to_lower a in
      c = l \<or> (97 \<le> l \<and> l \<le> 122 \<and> c + 32 = l) \<or>
      (l = 105 \<and> (c = 304 \<or> c = 305)) \<or> (l = 115 \<and> c = 383) \<or> (l = 107 \<and> c = 8490))"

text \<open>
  The patterns of script.py use one capturing group and quantifiers over single
  characters only, so a pattern is a list of items.
\<close>

datatype item =
    Chr "nat \<Rightarrow> bool"
  | Star "nat \<Rightarrow> bool"
  | Opt "nat \<Rightarrow> bool"
  | GOpen
  | GClose

text \<open>
  \<open>re_match p s ing g\<close> matches the pattern \<open>p\<close> at the start of \<open>s\<close>, the way Python's
  backtracking matcher does: a greedy quantifier takes as much as it can and gives
  characters back one at a time. \<open>ing\<close> says that the group is open, \<open>g\<close> is what the
  group has captured. The result is \<open>group(1)\<close> of the first match in that order.
\<close>

fun re_match :: "item list \<Rightarrow> pystr \<Rightarrow> bool \<Rightarrow> pystr \<Rightarrow> pystr option" where
  "re_match [] s ing g = Some g"
| "re_match (GOpen # p) s ing g = re_match p s True []"
| "re_match (GClose # p) s ing g = re_match p s False g"
| "re_match (Chr f # p) [] ing g = None"
| "re_match (Chr f # p) (c # s) ing g =
     (if f c then re_match p s ing (if ing then g @ [c] else g) else None)"
| "re_match (Opt f # p) [] ing g = re_match p [] ing g"
| "re_match (Opt f # p) (c # s) ing g =
     (if f c then
        (case re_match p s ing (if ing then g @ [c] else g) of
           Some r \<Rightarrow> Some r
         | None \<Rightarrow> re_match p (c # s) ing g)
      else re_match p (c # s) ing g)"
| "re_match (Star f # p) [] ing g = re_match p [] ing g"
| "re_match (Star f # p) (c # s) ing g =
     (if f c then
        (case re_match (Star f # p) s ing (if ing then g @ [c] else g) of
           Some r \<Rightarrow> Some r
         | None \<Rightarrow> re_match p (c # s) ing g)
      else re_match p (c # s) ing g)"

text \<open>\<open>re.search\<close>: the leftmost position at which the pattern matches.\<close>

fun re_search :: "item list \<Rightarrow> pystr \<Rightarrow> pystr option" where
  "re_search p [] = re_match p [] False []"
| "re_search p (c # s) =
     (case re_match p (c # s) False [] of
        Some g \<Rightarrow> Some g
      | None \<Rightarrow> re_search p s)"

text \<open>Pattern builders: a literal text under \<open>re.I\<close>; \<open>x+\<close> is \<open>xx*\<close>.\<close>

definition ci_text :: "string \<Rightarrow> item list" where
  "ci_text s = map (\<lambda>a. Chr (ci a)) (str s)"

definition one_or_more :: "(nat \<Rightarrow> bool) \<Rightarrow> item list" where
  "one_or_more f = [Chr f, Star f]"

text \<open>\<^verbatim>\<open>\$([0-9,]+\.?[0-9]*)\<close>, the amount in a disclaimer item (strategy 1).\<close>

definition amount_group :: "item list" where
  "amount_group = [GOpen] @ one_or_more is_digit_comma @ [Opt (lit 46), Star is_digit, GClose]"

definition dollar_amount_re :: "item list" where
  "dollar_amount_re = [Chr (lit 36)] @ amount_group"

text \<open>\<^verbatim>\<open>\$([0-9,]+)\s*PP\s*/\s*USD\<close> with \<open>re.I\<close>, the base fare of strategy 2 and the
  first base-fare pattern of strategy 3.\<close>

definition fare_pp_usd_re :: "item list" where
  "fare_pp_usd_re =
     [Chr (lit 36), GOpen] @ one_or_more is_digit_comma @ [GClose, Star is_space] @ ci_text ''PP'' @
     [Star is_space, Chr (lit 47), Star is_space] @ ci_text ''USD''"

text \<open>\<^verbatim>\<open>"price":\s*"([0-9,]+)"\<close> with \<open>re.I\<close>.\<close>

definition json_price_re :: "item list" where
  "json_price_re =
     [Chr (lit 34)] @ ci_text ''price'' @ [Chr (lit 34), Chr (lit 58), Star is_space, Chr (lit 34), GOpen] @
     one_or_more is_digit_comma @ [GClose, Chr (lit 34)]"

text \<open>\<^verbatim>\<open>priceFrom["\']?\s*:\s*["\']?([0-9,]+)\<close> with \<open>re.I\<close>.\<close>

definition price_from_re :: "item list" where
  "price_from_re =
     ci_text ''priceFrom'' @ [Opt is_quote, Star is_space, Chr (lit 58), Star is_space, Opt is_quote, GOpen] @
     one_or_more is_digit_comma @ [GClose]"

text \<open>\<^verbatim>\<open>Taxes,\s*fees\s*and\s*port\s*expenses\s*\$([0-9,]+\.?[0-9]*)\<close> with \<open>re.I\<close>.\<close>

definition taxes_re :: "item list" where
  "taxes_re =
     ci_text ''Taxes,'' @ [Star is_space] @ ci_text ''fees'' @ [Star is_space] @ ci_text ''and'' @
     [Star is_space] @ ci_text ''port'' @ [Star is_space] @ ci_text ''expenses'' @
     [Star is_space, Chr (lit 36)] @ amount_group"

text \<open>\<^verbatim>\<open>\+\s*Taxes,\s*fees\s*and\s*port\s*expenses\s*\$([0-9,]+\.?[0-9]*)\<close> with \<open>re.I\<close>.\<close>

definition plus_taxes_re :: "item list" where
  "plus_taxes_re = [Chr (lit 43), Star is_space] @ taxes_re"

text \<open>\<^verbatim>\<open>taxesAndFees["\']?\s*:\s*["\']?([0-9,]+\.?[0-9]*)\<close> with \<open>re.I\<close>.\<close>

definition taxes_and_fees_re :: "item list" where
  "taxes_and_fees_re =
     ci_text ''taxesAndFees'' @ [Opt is_quote, Star is_space, Chr (lit 58), Star is_space, Opt is_quote] @
     amount_group"

text \<open>\<open>re.sub(r'\s+', ' ', html)\<close>: every run of whitespace becomes one space. The flag
  says that the previous character was whitespace.\<close>

fun sub_spaces :: "bool \<Rightarrow> pystr \<Rightarrow> pystr" where
  "sub_spaces prev [] = []"
| "sub_spaces prev (c # s) =
     (if is_space c then (if prev then sub_spaces True s else 32 # sub_spaces True s)
      else c # sub_spaces False s)"

text \<open>\<open>group.replace(',', '')\<close>\<close>

definition remove_commas :: "pystr \<Rightarrow> pystr" where
  "remove_commas s = filter (\<lambda>c. c \<noteq> 44) s"

section \<open>Python values\<close>

subsection \<open>Exceptions\<close>

text \<open>
  The exception classes that the code and its libraries raise, with the subclass
  relation that the \<open>except\<close> clauses of script.py depend on:
  \<open>JSONDecodeError\<close> and \<open>UnicodeDecodeError\<close> are \<open>ValueError\<close>s, requests'
  \<open>RequestException\<close> (and its \<open>HTTPError\<close>) is an \<open>OSError\<close>, which \<open>IOError\<close> is
  another name of, and every class here is an \<open>Exception\<close>.
\<close>

datatype exn_class =
    Exception | ValueError | JSONDecodeError | UnicodeDecodeError | KeyError | TypeError
  | AttributeError | OverflowError | RecursionError | OSError | RequestException | HTTPError

datatype exn = Exn exn_class pystr

fun cls :: "exn \<Rightarrow> exn_class" where
  "cls (Exn c m) = c"

fun msg :: "exn \<Rightarrow> pystr" where
  "msg (Exn c m) = m"

fun is_a :: "exn_class \<Rightarrow> exn_class \<Rightarrow> bool" where
  "is_a c Exception = True"
| "is_a c ValueError = (c = ValueError \<or> c = JSONDecodeError \<or> c = UnicodeDecodeError)"
| "is_a c OSError = (c = OSError \<or> c = RequestException \<or> c = HTTPError)"
| "is_a c RequestException = (c = RequestException \<or> c = HTTPError)"
| "is_a c d = (c = d)"

subsection \<open>Floats\<close>

text \<open>
  A Python \<open>float\<close> is an IEEE 754 double: a finite double is the rational number it
  denotes, and the negative zero, the infinities and the NaN stand apart. \<open>round_double\<close>
  rounds a rational number to the nearest double, ties to even, with the subnormal
  range and the overflow to an infinity.
\<close>

datatype pyfloat = Finite rat | NegZero | PosInf | NegInf | NaN

definition pow2 :: "int \<Rightarrow> rat" where
  "pow2 e = (if 0 \<le> e then 2 ^ nat e else 1 / 2 ^ nat (- e))"

definition pow10 :: "int \<Rightarrow> rat" where
  "pow10 e = (if 0 \<le> e then 10 ^ nat e else 1 / 10 ^ nat (- e))"

definition round_half_even :: "rat \<Rightarrow> int" where
  "round_half_even q =
     (let f = \<lfloor>q\<rfloor>; d = q - of_int f in
      if d < 1 / 2 then f else if 1 / 2 < d then f + 1 else if even f then f else f + 1)"

text \<open>The exponent of the leading bit of a positive rational number.\<close>

definition floor_log2 :: "rat \<Rightarrow> int" where
  "floor_log2 q =
     (let e = bitlen (fst (quotient_of q)) - bitlen (snd (quotient_of q)) in
      if pow2 e \<le> q then e else e - 1)"

definition round_double :: "rat \<Rightarrow> pyfloat" where
  "round_double q =
     (if q = 0 then Finite 0
      else
        let a = \<bar>q\<bar>;
            e = floor_log2 a;
            u = pow2 (if e < - 1022 then - 1074 else e - 52);
            v = of_int (round_half_even (a / u)) * u
        in if pow2 1024 \<le> v then (if q < 0 then NegInf else PosInf)
           else if v = 0 then (if q < 0 then NegZero else Finite 0)
           else Finite (if q < 0 then - v else v))"

fun float_neg :: "pyfloat \<Rightarrow> pyfloat" where
  "float_neg (Finite q) = (if q = 0 then NegZero else Finite (- q))"
| "float_neg NegZero = Finite 0"
| "float_neg PosInf = NegInf"
| "float_neg NegInf = PosInf"
| "float_neg NaN = NaN"

text \<open>\<open>x == y\<close> on floats: a NaN equals nothing, the two zeros are equal.\<close>

fun float_eq :: "pyfloat \<Rightarrow> pyfloat \<Rightarrow> bool" where
  "float_eq NaN y = False"
| "float_eq x NaN = False"
| "float_eq NegZero y = (y = NegZero \<or> y = Finite 0)"
| "float_eq x NegZero = (x = Finite 0)"
| "float_eq x y = (x = y)"

text \<open>\<open>x + y\<close> on floats.\<close>

fun float_add :: "pyfloat \<Rightarrow> pyfloat \<Rightarrow> pyfloat" where
  "float_add NaN y = NaN"
| "float_add x NaN = NaN"
| "float_add PosInf NegInf = NaN"
| "float_add NegInf PosInf = NaN"
| "float_add PosInf y = PosInf"
| "float_add x PosInf = PosInf"
| "float_add NegInf y = NegInf"
| "float_add x NegInf = NegInf"
| "float_add NegZero y = y"
| "float_add x NegZero = x"
| "float_add (Finite a) (Finite b) = round_double (a + b)"

subsection \<open>Formatting a float with \<open>,.0f\<close> and \<open>,.2f\<close>\<close>

function digits_of :: "int \<Rightarrow> pystr" where
  "digits_of n =
     (if n < 10 then [nat (48 + n)] else digits_of (n div 10) @ [nat (48 + n mod 10)])"
  by pat_completeness auto
termination
  by (relation "measure nat") auto

declare digits_of.simps [simp del]

text \<open>The thousands separators, on the digits from the right.\<close>

fun group3 :: "pystr \<Rightarrow> pystr" where
  "group3 (a # b # c # d # r) = a # b # c # 44 # group3 (d # r)"
| "group3 r = r"

definition frac_digits :: "nat \<Rightarrow> int \<Rightarrow> pystr" where
  "frac_digits d n = (let ds = digits_of n in replicate (d - length ds) 48 @ ds)"

definition fixed :: "nat \<Rightarrow> int \<Rightarrow> pystr" where
  "fixed d n =
     rev (group3 (rev (digits_of (n div 10 ^ d)))) @
     (if d = 0 then [] else 46 # frac_digits d (n mod 10 ^ d))"

text \<open>\<open>format(x, ',.df')\<close>: the exact value rounded to \<open>d\<close> decimals, ties to even.\<close>

definition format_f :: "nat \<Rightarrow> pyfloat \<Rightarrow> pystr" where
  "format_f d x =
     (case x of
        NaN \<Rightarrow> str ''nan''
      | PosInf \<Rightarrow> str ''inf''
      | NegInf \<Rightarrow> str ''-inf''
      | NegZero \<Rightarrow> 45 # fixed d 0
      | Finite q \<Rightarrow> (if q < 0 then [45] else []) @ fixed d (round_half_even (\<bar>q\<bar> * 10 ^ d)))"

subsection \<open>\<open>float(s)\<close> and \<open>int(s)\<close> on a string\<close>

text \<open>
  \<open>float(s)\<close> and \<open>int(s)\<close> first turn the string into ASCII: a code point below 127
  stays, a Unicode space becomes a blank, a decimal digit of any script becomes the ASCII
  digit of its value, anything else a question mark (which no number holds). Then they
  strip the ASCII whitespace at both ends. Only the exception's class is modelled: the
  message embeds \<open>repr(s)\<close>.
\<close>

text \<open>The code points of the digits zero beyond ASCII (Unicode 14.0, which Python 3.11
  carries); the nine code points after each are the digits one to nine.\<close>

definition decimal_zeros :: "nat list" where
  "decimal_zeros =
    [1632, 1776, 1984, 2406, 2534, 2662, 2790, 2918, 3046, 3174, 3302, 3430, 3558, 3664,
     3792, 3872, 4160, 4240, 6112, 6160, 6470, 6608, 6784, 6800, 6992, 7088, 7232, 7248,
     42528, 43216, 43264, 43472, 43504, 43600, 44016, 65296, 66720, 68912, 69734, 69872,
     69942, 70096, 70384, 70736, 70864, 71248, 71360, 71472, 71904, 72016, 72784, 73040,
     73120, 92768, 92864, 93008, 120782, 120792, 120802, 120812, 120822, 123200, 123632,
     125264, 130032]"

definition to_decimal :: "nat \<Rightarrow> nat option" where
  "to_decimal c =
     (case find (\<lambda>z. z \<le> c \<and> c < z + 10) decimal_zeros of
        None \<Rightarrow> None
      | Some z \<Rightarrow> Some (c - z))"

definition to_ascii :: "nat \<Rightarrow> nat" where
  "to_ascii c =
     (if c < 127 then c
      else if is_space c then 32
      else (case to_decimal c of None \<Rightarrow> 63 | Some d \<Rightarrow> 48 + d))"

definition is_ascii_space :: "nat \<Rightarrow> bool" where
  "is_ascii_space c \<longleftrightarrow> (9 \<le> c \<and> c \<le> 13) \<or> c = 32"

definition strip :: "pystr \<Rightarrow> pystr" where
  "strip s = rev (dropWhile is_ascii_space (rev (dropWhile is_ascii_space s)))"

text \<open>A run of digits, which a single underscore may separate, and what follows it.\<close>

fun digitpart :: "pystr \<Rightarrow> pystr \<times> pystr" where
  "digitpart [] = ([], [])"
| "digitpart (c # s) =
     (if is_digit c then
        (case s of
           u # d # s' \<Rightarrow>
             if u = 95 \<and> is_digit d
             then (case digitpart (d # s') of (ds, r) \<Rightarrow> (c # ds, r))
             else (case digitpart s of (ds, r) \<Rightarrow> (c # ds, r))
         | _ \<Rightarrow> (case digitpart s of (ds, r) \<Rightarrow> (c # ds, r)))
      else ([], c # s))"

definition digits_val :: "pystr \<Rightarrow> int" where
  "digits_val ds = foldl (\<lambda>a c. 10 * a + (int c - 48)) 0 ds"

text \<open>The exponent part: \<open>e\<close> or \<open>E\<close>, a sign, digits, and nothing after them.\<close>

definition exponent :: "pystr \<Rightarrow> int option" where
  "exponent r =
     (case r of
        [] \<Rightarrow> Some 0
      | e # t \<Rightarrow>
          if e = 101 \<or> e = 69 then
            (let neg = (case t of [] \<Rightarrow> False | x # _ \<Rightarrow> x = 45);
                 t' = (case t of [] \<Rightarrow> [] | x # t'' \<Rightarrow> if x = 45 \<or> x = 43 then t'' else t)
             in case digitpart t' of
                  (ep, r') \<Rightarrow>
                    if ep \<noteq> [] \<and> r' = []
                    then Some (if neg then - digits_val ep else digits_val ep)
                    else None)
          else None)"

text \<open>A decimal number with an optional fraction and exponent: its exact value.\<close>

definition decimal :: "pystr \<Rightarrow> rat option" where
  "decimal body =
     (case digitpart body of
        (ip, r1) \<Rightarrow>
          (case (case r1 of [] \<Rightarrow> ([], r1)
                 | x # t \<Rightarrow> if x = 46 then digitpart t else ([], r1)) of
             (fp, r2) \<Rightarrow>
               if ip = [] \<and> fp = [] then None
               else (case exponent r2 of
                       None \<Rightarrow> None
                     | Some ex \<Rightarrow>
                         Some (of_int (digits_val (ip @ fp)) * pow10 (ex - int (length fp))))))"

text \<open>
  \<open>float(s)\<close>: after a sign, \<open>inf\<close>, \<open>infinity\<close> or \<open>nan\<close> in any case, or a decimal
  number, rounded to the nearest double; anything else is a \<open>ValueError\<close>.
\<close>

definition py_float_str :: "pystr \<Rightarrow> exn_class + pyfloat" where
  "py_float_str s0 =
     (let s = strip (map to_ascii s0);
          neg = (case s of [] \<Rightarrow> False | x # _ \<Rightarrow> x = 45);
          body = (case s of [] \<Rightarrow> [] | x # t \<Rightarrow> if x = 45 \<or> x = 43 then t else s);
          low = map to_lower body
      in if low = str ''inf'' \<or> low = str ''infinity''
         then Inr (if neg then NegInf else PosInf)
         else if low = str ''nan'' then Inr NaN
         else (case decimal body of
                 None \<Rightarrow> Inl ValueError
               | Some q \<Rightarrow> Inr (if neg then float_neg (round_double q) else round_double q)))"

text \<open>
  \<open>int(s)\<close>: a sign, then digits that a single underscore may separate; anything else
  is a \<open>ValueError\<close>.
\<close>

definition py_int_str :: "pystr \<Rightarrow> exn_class + int" where
  "py_int_str s0 =
     (let s = strip (map to_ascii s0);
          neg = (case s of [] \<Rightarrow> False | x # _ \<Rightarrow> x = 45);
          body = (case s of [] \<Rightarrow> [] | x # t \<Rightarrow> if x = 45 \<or> x = 43 then t else s)
      in case digitpart body of
           (ds, r) \<Rightarrow>
             if ds \<noteq> [] \<and> r = []
             then Inr (if neg then - digits_val ds else digits_val ds)
             else Inl ValueError)"

subsection \<open>The values that \<open>json.loads\<close> returns\<close>

text \<open>Python's \<open>None\<close> is \<open>JNull\<close>.\<close>

datatype json =
    JNull | JBool bool | JInt int | JFloat pyfloat | JStr pystr
  | JList "json list" | JDict "(pystr \<times> json) list"

text \<open>The name of the type of such a value, as error messages show it.\<close>

definition type_name :: "json \<Rightarrow> pystr" where
  "type_name v =
     (case v of
        JNull \<Rightarrow> str ''NoneType'' | JBool b \<Rightarrow> str ''bool'' | JInt n \<Rightarrow> str ''int''
      | JFloat x \<Rightarrow> str ''float'' | JStr s \<Rightarrow> str ''str'' | JList xs \<Rightarrow> str ''list''
      | JDict d \<Rightarrow> str ''dict'')"

text \<open>\<open>float(v)\<close> on such a value: the float, or the class of the exception.\<close>

definition py_float :: "json \<Rightarrow> exn_class + pyfloat" where
  "py_float v =
     (case v of
        JStr s \<Rightarrow> py_float_str s
      | JFloat f \<Rightarrow> Inr f
      | JBool b \<Rightarrow> Inr (Finite (if b then 1 else 0))
      | JInt n \<Rightarrow>
          (case round_double (of_int n) of
             PosInf \<Rightarrow> Inl OverflowError
           | NegInf \<Rightarrow> Inl OverflowError
           | f \<Rightarrow> Inr f)
      | _ \<Rightarrow> Inl TypeError)"

text \<open>
  The libraries that script.py calls and that are no code of the repository are
  parameters: BeautifulSoup's \<open>html.parser\<close>, \<open>json.loads\<close> and \<open>json.dumps\<close> (with
  \<open>indent=2\<close>).
\<close>


section \<open>The parsed document\<close>

text \<open>
  What BeautifulSoup builds from a page: a tree of tags and strings. A tag has a name,
  the list of its classes (\<open>class\<close> is a multi-valued attribute), its other attributes
  and its children. \<open>NavigableString\<close> is a text node; \<open>SpecialString\<close> stands for the
  strings that \<open>get_text\<close> leaves out (comments, the contents of \<open>script\<close> and \<open>style\<close>).
\<close>

datatype node =
    NavigableString pystr
  | SpecialString pystr
  | Tag pystr "pystr list" "(pystr \<times> pystr) list" "node list"

record libs =
  bs4 :: "pystr \<Rightarrow> exn + node"
  json_loads :: "pystr \<Rightarrow> exn + json"
  json_dumps :: "json \<Rightarrow> pystr"

text \<open>The nodes below a node, in document order: what \<open>find_all\<close> searches.\<close>

fun descendants :: "node \<Rightarrow> node list" where
  "descendants (Tag n cs as ks) = concat (map (\<lambda>k. k # descendants k) ks)"
| "descendants (NavigableString s) = []"
| "descendants (SpecialString s) = []"

definition find_all :: "(node \<Rightarrow> bool) \<Rightarrow> node \<Rightarrow> node list" where
  "find_all f soup = filter f (descendants soup)"

definition find_tag :: "(node \<Rightarrow> bool) \<Rightarrow> node \<Rightarrow> node option" where
  "find_tag f soup = (case find_all f soup of [] \<Rightarrow> None | t # _ \<Rightarrow> Some t)"

text \<open>\<open>tag.text\<close>, that is \<open>tag.get_text()\<close>.\<close>

fun get_text :: "node \<Rightarrow> pystr" where
  "get_text (NavigableString s) = s"
| "get_text (SpecialString s) = []"
| "get_text (Tag n cs as ks) = concat (map get_text ks)"

text \<open>\<open>tag.string\<close>: the string of a tag with one child, \<open>None\<close> otherwise.\<close>

fun tag_string :: "node \<Rightarrow> pystr option" where
  "tag_string (Tag n cs as [NavigableString s]) = Some s"
| "tag_string (Tag n cs as [SpecialString s]) = Some s"
| "tag_string (Tag n cs as [Tag n' cs' as' ks]) = tag_string (Tag n' cs' as' ks)"
| "tag_string t = None"

text \<open>The filters of the searches of script.py.\<close>

fun join_space :: "pystr list \<Rightarrow> pystr" where
  "join_space [] = []"
| "join_space [c] = c"
| "join_space (c # cs) = c @ 32 # join_space cs"

text \<open>\<open>class_='...'\<close>: one of the classes, or the whole attribute, is the string.\<close>

definition class_is :: "string \<Rightarrow> pystr list \<Rightarrow> bool" where
  "class_is c cs \<longleftrightarrow> str c \<in> set cs \<or> join_space cs = str c"

fun starts_with :: "pystr \<Rightarrow> pystr \<Rightarrow> bool" where
  "starts_with [] s = True"
| "starts_with (a # n) [] = False"
| "starts_with (a # n) (c # s) = (a = c \<and> starts_with n s)"

fun contains :: "pystr \<Rightarrow> pystr \<Rightarrow> bool" where
  "contains n [] = (n = [])"
| "contains n (c # s) = (starts_with n (c # s) \<or> contains n s)"

text \<open>\<open>re.compile(r'price|cost|fare').search\<close>\<close>

definition price_cost_fare :: "pystr \<Rightarrow> bool" where
  "price_cost_fare s \<longleftrightarrow>
     contains (str ''price'') s \<or> contains (str ''cost'') s \<or> contains (str ''fare'') s"

text \<open>\<open>class_=re.compile(...)\<close>: the pattern is found in one of the classes, or in the
  whole attribute.\<close>

definition class_matches :: "(pystr \<Rightarrow> bool) \<Rightarrow> pystr list \<Rightarrow> bool" where
  "class_matches f cs \<longleftrightarrow> list_ex f cs \<or> f (join_space cs)"

text \<open>\<open>find_all('script', type='application/ld+json')\<close>\<close>

fun is_json_ld_script :: "node \<Rightarrow> bool" where
  "is_json_ld_script (Tag n cs as ks) =
     (n = str ''script'' \<and> map_of as (str ''type'') = Some (str ''application/ld+json''))"
| "is_json_ld_script t = False"

text \<open>\<open>find('div', class_='c544_disclaimer')\<close>\<close>

fun is_disclaimer_div :: "node \<Rightarrow> bool" where
  "is_disclaimer_div (Tag n cs as ks) = (n = str ''div'' \<and> class_is ''c544_disclaimer'' cs)"
| "is_disclaimer_div t = False"

text \<open>\<open>find('ul', class_='c544_disclaimer_list')\<close>\<close>

fun is_disclaimer_list :: "node \<Rightarrow> bool" where
  "is_disclaimer_list (Tag n cs as ks) =
     (n = str ''ul'' \<and> class_is ''c544_disclaimer_list'' cs)"
| "is_disclaimer_list t = False"

text \<open>\<open>find_all('li', class_='c544_disclaimer_list_item')\<close>\<close>

fun is_disclaimer_item :: "node \<Rightarrow> bool" where
  "is_disclaimer_item (Tag n cs as ks) =
     (n = str ''li'' \<and> class_is ''c544_disclaimer_list_item'' cs)"
| "is_disclaimer_item t = False"

text \<open>\<open>find('span')\<close>\<close>

fun is_span :: "node \<Rightarrow> bool" where
  "is_span (Tag n cs as ks) = (n = str ''span'')"
| "is_span t = False"

text \<open>\<open>find_all(['span', 'div', 'p'], class_=re.compile(r'price|cost|fare'))\<close>\<close>

fun is_price_element :: "node \<Rightarrow> bool" where
  "is_price_element (Tag n cs as ks) =
     ((n = str ''span'' \<or> n = str ''div'' \<or> n = str ''p'') \<and> class_matches price_cost_fare cs)"
| "is_price_element t = False"

section \<open>\<open>parse_price\<close>\<close>

text \<open>
  Every exception raised inside \<open>parse_price\<close> is caught there (lines 113, 115, 148 and
  187), and only its class decides which clause catches it. The functions of the three
  strategies therefore return the class of the exception that leaves them.
\<close>

text \<open>\<open>float(m.group(1).replace(',', ''))\<close>\<close>

definition amount :: "pystr \<Rightarrow> exn_class + pyfloat" where
  "amount g = py_float_str (remove_commas g)"

subsection \<open>Strategy 1: the JSON-LD offer and the disclaimer list\<close>

text \<open>
  The loop over the items of the disclaimer list (lines 102 to 109): the amount of the
  first item whose span has a text with a dollar amount in it; \<open>None\<close> when the loop
  ends without one; the \<open>ValueError\<close> of \<open>float\<close> when the captured text is no number.
\<close>

fun scan_items :: "node list \<Rightarrow> exn_class + pyfloat option" where
  "scan_items [] = Inr None"
| "scan_items (item # items) =
     (case find_tag is_span item of
        None \<Rightarrow> scan_items items
      | Some span_tag \<Rightarrow>
          if get_text span_tag \<noteq> [] then
            (case re_search dollar_amount_re (get_text span_tag) of
               None \<Rightarrow> scan_items items
             | Some g \<Rightarrow>
                 (case amount g of Inl e \<Rightarrow> Inl e | Inr taxes \<Rightarrow> Inr (Some taxes)))
          else scan_items items)"

text \<open>Lines 98 to 109: the taxes of the disclaimer section, if there are any.\<close>

definition find_taxes :: "node \<Rightarrow> exn_class + pyfloat option" where
  "find_taxes soup =
     (case find_tag is_disclaimer_div soup of
        None \<Rightarrow> Inr None
      | Some disclaimer_div \<Rightarrow>
          (case find_tag is_disclaimer_list disclaimer_div of
             None \<Rightarrow> Inr None
           | Some disclaimer_list \<Rightarrow> scan_items (find_all is_disclaimer_item disclaimer_list)))"

text \<open>
  How the body of the loop over the scripts (lines 92 to 112) ends when it raises
  nothing: it falls to the next script, it breaks out of the loop, or it returns.
\<close>

datatype step = Continue | Break | Return "pyfloat \<times> pyfloat"

definition script_body :: "libs \<Rightarrow> node \<Rightarrow> node \<Rightarrow> exn_class + step" where
  "script_body L soup script =
     (case tag_string script of
        None \<Rightarrow> Inl TypeError
      | Some text \<Rightarrow>
          (case json_loads L text of
             Inl e \<Rightarrow> Inl (cls e)
           | Inr data \<Rightarrow>
               (case data of
                  JDict d \<Rightarrow>
                    if map_of d (str ''@type'') = Some (JStr (str ''Offer'')) then
                      (case map_of d (str ''price'') of
                         None \<Rightarrow> Inr Continue
                       | Some price \<Rightarrow>
                           (case py_float price of
                              Inl e \<Rightarrow> Inl e
                            | Inr base_price \<Rightarrow>
                                (case find_taxes soup of
                                   Inl e \<Rightarrow> Inl e
                                 | Inr (Some taxes) \<Rightarrow> Inr (Return (base_price, taxes))
                                 | Inr None \<Rightarrow> Inr Break)))
                    else Inr Continue
                | _ \<Rightarrow> Inl AttributeError)))"

text \<open>
  The loop over the scripts, with its \<open>except (json.JSONDecodeError, KeyError,
  ValueError): continue\<close>. Any other exception leaves the loop.
\<close>

fun scripts_loop :: "libs \<Rightarrow> node \<Rightarrow> node list \<Rightarrow> exn_class + (pyfloat \<times> pyfloat) option" where
  "scripts_loop L soup [] = Inr None"
| "scripts_loop L soup (script # scripts) =
     (case script_body L soup script of
        Inl e \<Rightarrow>
          if is_a e JSONDecodeError \<or> is_a e KeyError \<or> is_a e ValueError
          then scripts_loop L soup scripts
          else Inl e
      | Inr Continue \<Rightarrow> scripts_loop L soup scripts
      | Inr Break \<Rightarrow> Inr None
      | Inr (Return r) \<Rightarrow> Inr (Some r))"

text \<open>
  Lines 85 to 116. \<open>None\<close> is the fall to strategy 2: the loop ended or broke, or an
  exception reached \<open>except Exception: pass\<close>.
\<close>

definition strategy1 :: "libs \<Rightarrow> pystr \<Rightarrow> (pyfloat \<times> pyfloat) option" where
  "strategy1 L html =
     (case bs4 L html of
        Inl e \<Rightarrow> None
      | Inr soup \<Rightarrow>
          (case scripts_loop L soup (find_all is_json_ld_script soup) of
             Inl e \<Rightarrow> None
           | Inr r \<Rightarrow> r))"

subsection \<open>Strategy 2: the price elements and the disclaimer text\<close>

text \<open>Lines 128 to 134: the base fare of the first price element that shows one.\<close>

fun scan_price_elements :: "node list \<Rightarrow> exn_class + pyfloat option" where
  "scan_price_elements [] = Inr None"
| "scan_price_elements (elem # elems) =
     (if get_text elem \<noteq> [] then
        (case re_search fare_pp_usd_re (get_text elem) of
           None \<Rightarrow> scan_price_elements elems
         | Some g \<Rightarrow>
             (case amount g of Inl e \<Rightarrow> Inl e | Inr base_price \<Rightarrow> Inr (Some base_price)))
      else scan_price_elements elems)"

text \<open>Lines 137 to 143.\<close>

definition disclaimer_taxes :: "node \<Rightarrow> exn_class + pyfloat option" where
  "disclaimer_taxes soup =
     (case find_tag is_disclaimer_div soup of
        None \<Rightarrow> Inr None
      | Some disclaimer_div \<Rightarrow>
          (case re_search taxes_re (get_text disclaimer_div) of
             None \<Rightarrow> Inr None
           | Some g \<Rightarrow> (case amount g of Inl e \<Rightarrow> Inl e | Inr taxes \<Rightarrow> Inr (Some taxes))))"

text \<open>The \<open>if base_price is not None and taxes is not None\<close> of lines 145 and 184.\<close>

fun both :: "pyfloat option \<Rightarrow> pyfloat option \<Rightarrow> (pyfloat \<times> pyfloat) option" where
  "both (Some base_price) (Some taxes) = Some (base_price, taxes)"
| "both b t = None"

definition strategy2 :: "libs \<Rightarrow> pystr \<Rightarrow> (pyfloat \<times> pyfloat) option" where
  "strategy2 L html =
     (case bs4 L html of
        Inl e \<Rightarrow> None
      | Inr soup \<Rightarrow>
          (case scan_price_elements (find_all is_price_element soup) of
             Inl e \<Rightarrow> None
           | Inr base_price \<Rightarrow>
               (case disclaimer_taxes soup of
                  Inl e \<Rightarrow> None
                | Inr taxes \<Rightarrow> both base_price taxes)))"

subsection \<open>Strategy 3: patterns over the whole text\<close>

text \<open>Lines 164 to 168 and 178 to 182: the first pattern of the list that matches.\<close>

fun first_match :: "item list list \<Rightarrow> pystr \<Rightarrow> exn_class + pyfloat option" where
  "first_match [] text = Inr None"
| "first_match (pattern # patterns) text =
     (case re_search pattern text of
        None \<Rightarrow> first_match patterns text
      | Some g \<Rightarrow> (case amount g of Inl e \<Rightarrow> Inl e | Inr v \<Rightarrow> Inr (Some v)))"

definition fare_patterns :: "item list list" where
  "fare_patterns = [fare_pp_usd_re, json_price_re, price_from_re]"

definition tax_patterns :: "item list list" where
  "tax_patterns = [taxes_re, plus_taxes_re, taxes_and_fees_re]"

definition strategy3 :: "pystr \<Rightarrow> (pyfloat \<times> pyfloat) option" where
  "strategy3 html =
     (let text = sub_spaces False html in
      case first_match fare_patterns text of
        Inl e \<Rightarrow> None
      | Inr base_price \<Rightarrow>
          (case first_match tax_patterns text of
             Inl e \<Rightarrow> None
           | Inr taxes \<Rightarrow> both base_price taxes))"

subsection \<open>The three strategies in order\<close>

definition no_price_block :: exn where
  "no_price_block =
     Exn ValueError (str ''Could not locate price block in HTML using any parsing strategy'')"

definition parse_price :: "libs \<Rightarrow> pystr \<Rightarrow> exn + pyfloat \<times> pyfloat" where
  "parse_price L html =
     (case strategy1 L html of
        Some r \<Rightarrow> Inr r
      | None \<Rightarrow>
          (case strategy2 L html of
             Some r \<Rightarrow> Inr r
           | None \<Rightarrow>
               (case strategy3 html of
                  Some r \<Rightarrow> Inr r
                | None \<Rightarrow> Inl no_price_block)))"


section \<open>The snapshot file, the network and the monitoring loop\<close>

text \<open>
  The state that a cycle reads and changes: the text files by path, what \<open>print\<close> has
  written, the records handed to \<open>logging\<close>, and the POST requests made (URL, chat id
  and text), in order.
\<close>

datatype level = INFO | ERROR

record world =
  files :: "pystr \<Rightarrow> pystr option"
  stdout :: "pystr list"
  logged :: "(level \<times> pystr) list"
  posts :: "(pystr \<times> pystr \<times> pystr) list"

text \<open>
  What the outside does during one cycle. \<open>http_get url\<close> is the outcome of lines 68 to
  70 (the session's \<open>get\<close> with its retries, \<open>raise_for_status\<close>, \<open>r.text\<close>);
  \<open>http_post url chat_id text\<close> is the exception of lines 219 and 220, if any;
  \<open>open_read path\<close> and \<open>open_write path\<close> are the message of the \<open>OSError\<close> that
  reading the file, or making its directory and writing it, runs into, if any. A write
  that fails leaves the file as it was. \<open>clock_sleep secs\<close> is the exception with
  which the system refuses to sleep a non-negative number of seconds, if it does (a
  length beyond what its clock holds).
\<close>

record env =
  http_get :: "pystr \<Rightarrow> exn + pystr"
  http_post :: "pystr \<Rightarrow> pystr \<Rightarrow> pystr \<Rightarrow> exn option"
  open_read :: "pystr \<Rightarrow> pystr option"
  open_write :: "pystr \<Rightarrow> pystr option"
  clock_sleep :: "int \<Rightarrow> exn option"

record config =
  bot_token :: pystr
  chat_id :: pystr
  interval :: int
  store_f :: pystr

definition TARGET_URL :: pystr where
  "TARGET_URL =
     str ''https://www.ncl.com/no/en/cruises/'' @
     str ''14-day-iceland-round-trip-london-reykjavik-belfast-'' @
     str ''and-paris-PRIMA14SOULEHBFSREYISAAKUGNRBGOSVGSOU'' @
     str ''?destinations=4294949354,4294949395,4294949385'' @
     str ''&sailMonths=4294949333&numberOfGuests=4294949461'' @
     str ''&sortBy=price&autoPopulate=f&from=resultpage'' @
     str ''&itineraryCode=PRIMA14SOULEHBFSREYISAAKUGNRBGOSVGSOU''"

subsection \<open>\<open>fetch_html\<close>\<close>

definition fetch_html :: "env \<Rightarrow> pystr \<Rightarrow> exn + pystr" where
  "fetch_html E url =
     (case http_get E url of
        Inr text \<Rightarrow> Inr text
      | Inl e \<Rightarrow>
          if is_a (cls e) RequestException
          then Inl (Exn Exception (str ''Failed to fetch HTML: '' @ msg e))
          else Inl e)"

subsection \<open>\<open>load_last\<close> and \<open>save_last\<close>\<close>

definition print :: "pystr \<Rightarrow> world \<Rightarrow> world" where
  "print line w = w\<lparr>stdout := stdout w @ [line]\<rparr>"

definition load_warning :: "pystr \<Rightarrow> pystr" where
  "load_warning m = str ''Warning: Could not load last price data: '' @ m"

definition save_warning :: "pystr \<Rightarrow> pystr" where
  "save_warning m = str ''Warning: Could not save price data: '' @ m"

text \<open>
  The value returned, or the exception raised, and the state after it. \<open>return None\<close>
  is \<open>Inr JNull\<close>.
\<close>

definition load_last :: "libs \<Rightarrow> env \<Rightarrow> world \<Rightarrow> pystr \<Rightarrow> (exn + json) \<times> world" where
  "load_last L E w path =
     (case files w path of
        None \<Rightarrow> (Inr JNull, w)
      | Some content \<Rightarrow>
          (case open_read E path of
             Some m \<Rightarrow> (Inr JNull, print (load_warning m) w)
           | None \<Rightarrow>
               (case json_loads L content of
                  Inr v \<Rightarrow> (Inr v, w)
                | Inl e \<Rightarrow>
                    if is_a (cls e) JSONDecodeError \<or> is_a (cls e) OSError
                    then (Inr JNull, print (load_warning (msg e)) w)
                    else (Inl e, w))))"

definition save_last :: "libs \<Rightarrow> env \<Rightarrow> world \<Rightarrow> pystr \<Rightarrow> json \<Rightarrow> world" where
  "save_last L E w path data =
     (case open_write E path of
        Some m \<Rightarrow> print (save_warning m) w
      | None \<Rightarrow> w\<lparr>files := (files w)(path \<mapsto> json_dumps L data)\<rparr>)"

subsection \<open>\<open>send_telegram\<close>\<close>

definition send_telegram :: "env \<Rightarrow> world \<Rightarrow> pystr \<Rightarrow> pystr \<Rightarrow> pystr \<Rightarrow> exn option \<times> world" where
  "send_telegram E w token chat message =
     (let url = str ''https://api.telegram.org/bot'' @ token @ str ''/sendMessage''
      in (http_post E url chat message, w\<lparr>posts := posts w @ [(url, chat, message)]\<rparr>))"

subsection \<open>The comparison of line 252\<close>

text \<open>\<open>tuple(last)\<close>: the items of a list, the keys of a dict, the characters of a
  string; a number or a boolean is not iterable.\<close>

definition not_iterable_error :: "json \<Rightarrow> exn" where
  "not_iterable_error v = Exn TypeError ([39] @ type_name v @ [39] @ str '' object is not iterable'')"

definition py_tuple :: "json \<Rightarrow> exn + json list" where
  "py_tuple v =
     (case v of
        JList xs \<Rightarrow> Inr xs
      | JDict d \<Rightarrow> Inr (map (\<lambda>kv. JStr (fst kv)) d)
      | JStr s \<Rightarrow> Inr (map (\<lambda>c. JStr [c]) s)
      | _ \<Rightarrow> Inl (not_iterable_error v))"

text \<open>\<open>x == v\<close> for a float \<open>x\<close>: a number is compared by its exact value, \<open>True\<close> and
  \<open>False\<close> are 1 and 0, anything else is not equal.\<close>

definition float_eq_json :: "pyfloat \<Rightarrow> json \<Rightarrow> bool" where
  "float_eq_json x v =
     (case v of
        JFloat y \<Rightarrow> float_eq x y
      | JInt n \<Rightarrow> float_eq x (Finite (of_int n))
      | JBool b \<Rightarrow> float_eq x (Finite (if b then 1 else 0))
      | _ \<Rightarrow> False)"

text \<open>\<open>(base, taxes) != t\<close> for a tuple \<open>t\<close>.\<close>

definition pair_differs :: "pyfloat \<Rightarrow> pyfloat \<Rightarrow> json list \<Rightarrow> bool" where
  "pair_differs base taxes t =
     (case t of
        [x, y] \<Rightarrow> \<not> (float_eq_json base x \<and> float_eq_json taxes y)
      | _ \<Rightarrow> True)"

text \<open>\<open>last is None or (base, taxes) != tuple(last)\<close>\<close>

definition has_changed :: "pyfloat \<Rightarrow> pyfloat \<Rightarrow> json \<Rightarrow> exn + bool" where
  "has_changed base taxes last_seen =
     (if last_seen = JNull then Inr True
      else (case py_tuple last_seen of
              Inl e \<Rightarrow> Inl e
            | Inr t \<Rightarrow> Inr (pair_differs base taxes t)))"

subsection \<open>The messages\<close>

definition debug_msg :: "pyfloat \<Rightarrow> pyfloat \<Rightarrow> pystr" where
  "debug_msg base taxes =
     str ''[DEBUG] Price check '' @ [8594] @ str '' Base: $'' @ format_f 0 base @
     str '', Taxes: $'' @ format_f 2 taxes @
     str '' (Total: $'' @ format_f 2 (float_add base taxes) @ str '')''"

definition alert_msg :: "pyfloat \<Rightarrow> pyfloat \<Rightarrow> pystr" where
  "alert_msg base taxes =
     str ''Norwegian Prima price update'' @ [128674, 32, 10, 10] @
     str ''Base fare: $'' @ format_f 0 base @ [10] @
     str ''Taxes/fees: $'' @ format_f 2 taxes @ [10] @
     str ''Total: $'' @ format_f 2 (float_add base taxes) @ [10, 10] @
     TARGET_URL"

subsection \<open>One cycle\<close>

text \<open>
  Lines 251 to 260, from the extracted pair on: the exception that leaves the \<open>try\<close>
  block, if any, and the state.
\<close>

definition check_and_notify ::
  "libs \<Rightarrow> env \<Rightarrow> config \<Rightarrow> pyfloat \<Rightarrow> pyfloat \<Rightarrow> world \<Rightarrow> exn option \<times> world" where
  "check_and_notify L E cfg base taxes w =
     (case load_last L E w (store_f cfg) of
        (Inl e, w1) \<Rightarrow> (Some e, w1)
      | (Inr last_seen, w1) \<Rightarrow>
          (case has_changed base taxes last_seen of
             Inl e \<Rightarrow> (Some e, w1)
           | Inr changed \<Rightarrow>
               if changed then
                 (case send_telegram E w1 (bot_token cfg) (chat_id cfg) (alert_msg base taxes) of
                    (Some e, w2) \<Rightarrow> (Some e, w2)
                  | (None, w2) \<Rightarrow>
                      (None, save_last L E w2 (store_f cfg) (JList [JFloat base, JFloat taxes])))
               else (None, w1)))"

text \<open>The \<open>try\<close> block, lines 241 to 260.\<close>

definition cycle_body :: "libs \<Rightarrow> env \<Rightarrow> config \<Rightarrow> world \<Rightarrow> exn option \<times> world" where
  "cycle_body L E cfg w =
     (case fetch_html E TARGET_URL of
        Inl e \<Rightarrow> (Some e, w)
      | Inr html \<Rightarrow>
          (case parse_price L html of
             Inl e \<Rightarrow> (Some e, w)
           | Inr (base, taxes) \<Rightarrow>
               check_and_notify L E cfg base taxes
                 (w\<lparr>logged := logged w @ [(INFO, debug_msg base taxes)]\<rparr>)))"

text \<open>The \<open>try\<close> statement with its \<open>except Exception as e: logging.error(...)\<close>.\<close>

definition cycle :: "libs \<Rightarrow> env \<Rightarrow> config \<Rightarrow> world \<Rightarrow> world" where
  "cycle L E cfg w =
     (case cycle_body L E cfg w of
        (Some e, w') \<Rightarrow> w'\<lparr>logged := logged w' @ [(ERROR, str ''Problem during check: '' @ msg e)]\<rparr>
      | (None, w') \<Rightarrow> w')"

subsection \<open>\<open>run\<close>\<close>

text \<open>
  \<open>time.sleep(secs)\<close> stands outside the \<open>try\<close> statement: it raises a \<open>ValueError\<close>
  on a negative length, and what the system's clock raises otherwise.
\<close>

definition sleep :: "env \<Rightarrow> int \<Rightarrow> exn option" where
  "sleep E secs =
     (if secs < 0 then Some (Exn ValueError (str ''sleep length must be non-negative''))
      else clock_sleep E secs)"

text \<open>
  The \<open>while True\<close> loop, one cycle for each element of the list of what the outside
  does: the exception that ended the process, if one did, and the state.
\<close>

fun run_loop :: "libs \<Rightarrow> config \<Rightarrow> env list \<Rightarrow> world \<Rightarrow> exn option \<times> world" where
  "run_loop L cfg [] w = (None, w)"
| "run_loop L cfg (E # Es) w =
     (case sleep E (interval cfg * 60) of
        Some e \<Rightarrow> (Some e, cycle L E cfg w)
      | None \<Rightarrow> run_loop L cfg Es (cycle L E cfg w))"

text \<open>\<open>os.getenv(name, default)\<close>\<close>

definition getenv :: "(pystr \<Rightarrow> pystr option) \<Rightarrow> string \<Rightarrow> string \<Rightarrow> pystr" where
  "getenv environ name dflt = (case environ (str name) of None \<Rightarrow> str dflt | Some v \<Rightarrow> v)"

text \<open>
  Lines 226 to 232: the process exits with a message, or dies of an exception that
  nothing catches (the \<open>ValueError\<close> of \<open>int\<close>; its class is kept), or enters the loop
  with a configuration.
\<close>

datatype start = Exit pystr | Uncaught exn_class | Started config

definition startup :: "(pystr \<Rightarrow> pystr option) \<Rightarrow> start" where
  "startup environ =
     (let token = str ''7915288038:AAGzGuF0aMgaJoYYU-EzsA2tdIxRavQkjKc'';
          chat = str ''-1002852664251''
      in case py_int_str (getenv environ ''CHECK_INTERVAL_MIN'' ''1'') of
           Inl e \<Rightarrow> Uncaught e
         | Inr minutes \<Rightarrow>
             (let path = getenv environ ''LAST_PRICE_FILE'' ''last_price.json''
              in if \<not> (token \<noteq> [] \<and> chat \<noteq> [])
                 then Exit (str ''Error: TELEGRAM_BOT_TOKEN and TELEGRAM_CHAT_ID must be set'')
                 else Started \<lparr>bot_token = token, chat_id = chat,
                                interval = minutes, store_f = path\<rparr>))"

definition run ::
  "libs \<Rightarrow> (pystr \<Rightarrow> pystr option) \<Rightarrow> env list \<Rightarrow> world \<Rightarrow> start \<times> exn option \<times> world" where
  "run L environ Es w =
     (case startup environ of
        Started cfg \<Rightarrow> (Started cfg, run_loop L cfg Es w)
      | s \<Rightarrow> (s, None, w))"

subsection \<open>\<open>float.__repr__\<close> and the text that \<open>json.dumps\<close> writes\<close>

text \<open>
  \<open>save_last\<close> writes the pair with \<open>json.dump(data, f, indent=2)\<close>; the encoder of the
  \<open>json\<close> module writes a finite float as \<open>float.__repr__\<close> gives it: the shortest
  decimal digit string that \<open>float\<close> reads back as the same double, in positional
  notation when the decimal exponent is between \<open>-4\<close> and \<open>16\<close> and in exponent notation
  otherwise.
\<close>

text \<open>The decimal exponent of the leading digit of a positive rational number.\<close>

definition floor_log10 :: "rat \<Rightarrow> int" where
  "floor_log10 q =
     (if 1 \<le> q then int (length (digits_of \<lfloor>q\<rfloor>)) - 1
      else - int (length (digits_of (\<lceil>1 / q\<rceil> - 1))))"

text \<open>
  The shortest digit string: at each scale \<open>s\<close>, from one digit fewer than the leading
  digit on, the two integers next to \<open>q * 10 ^ s\<close> are tried, the nearer first, and the
  first that \<open>float\<close> reads back as \<open>q\<close> is taken. No double needs a scale beyond 1074.
\<close>

function shortest :: "rat \<Rightarrow> int \<Rightarrow> (int \<times> int) option" where
  "shortest q s =
     (if 1074 < s then None
      else
        let x = q * pow10 s;
            near = round_half_even x;
            far = (if of_int near \<le> x then near + 1 else near - 1)
        in if round_double (of_int near * pow10 (- s)) = Finite q then Some (near, s)
           else if round_double (of_int far * pow10 (- s)) = Finite q then Some (far, s)
           else shortest q (s + 1))"
  by pat_completeness auto
termination
  by (relation "measure (\<lambda>(q, s). nat (1075 - s))") auto

declare shortest.simps [simp del]

text \<open>The exponent is written with two digits at least.\<close>

definition two_digits :: "int \<Rightarrow> pystr" where
  "two_digits e = (if e < 10 then 48 # digits_of e else digits_of e)"

text \<open>The digits \<open>ds\<close> with the decimal point after \<open>decpt\<close> of them.\<close>

definition format_repr :: "pystr \<Rightarrow> int \<Rightarrow> pystr" where
  "format_repr ds decpt =
     (let n = int (length ds) in
      if - 4 < decpt \<and> decpt \<le> 16 then
        (if decpt \<le> 0 then str ''0.'' @ replicate (nat (- decpt)) 48 @ ds
         else if decpt < n then take (nat decpt) ds @ [46] @ drop (nat decpt) ds
         else ds @ replicate (nat (decpt - n)) 48 @ str ''.0'')
      else
        take 1 ds @ (if 1 < n then 46 # drop 1 ds else []) @ [101] @
        (if decpt - 1 < 0 then [45] else [43]) @ two_digits \<bar>decpt - 1\<bar>)"

text \<open>The text of a positive double.\<close>

definition repr_pos :: "rat \<Rightarrow> pystr" where
  "repr_pos q =
     (case shortest q (- floor_log10 q - 1) of
        None \<Rightarrow> []
      | Some (m, s) \<Rightarrow> format_repr (digits_of m) (int (length (digits_of m)) - s))"

text \<open>\<open>repr(x)\<close> of a float.\<close>

definition float_repr :: "pyfloat \<Rightarrow> pystr" where
  "float_repr x =
     (case x of
        Finite q \<Rightarrow>
          if q = 0 then str ''0.0'' else if q < 0 then 45 # repr_pos (- q) else repr_pos q
      | NegZero \<Rightarrow> str ''-0.0''
      | PosInf \<Rightarrow> str ''inf''
      | NegInf \<Rightarrow> str ''-inf''
      | NaN \<Rightarrow> str ''nan'')"

text \<open>A finite float: a zero, or a rational number that is a double.\<close>

definition is_double :: "pyfloat \<Rightarrow> bool" where
  "is_double x = (case x of Finite q \<Rightarrow> round_double q = Finite q | NegZero \<Rightarrow> True | _ \<Rightarrow> False)"

text \<open>\<open>json.dumps([a, b], indent=2)\<close>, given the texts of the two items.\<close>

definition pair_text :: "pystr \<Rightarrow> pystr \<Rightarrow> pystr" where
  "pair_text a b = [91, 10] @ str ''  '' @ a @ [44, 10] @ str ''  '' @ b @ [10, 93]"

section \<open>Notions that the properties use\<close>

text \<open>The URL of line 218.\<close>

definition telegram_url :: "config \<Rightarrow> pystr" where
  "telegram_url cfg = str ''https://api.telegram.org/bot'' @ bot_token cfg @ str ''/sendMessage''"

text \<open>The values on which \<open>tuple\<close> raises: numbers and booleans.\<close>

definition not_iterable :: "json \<Rightarrow> bool" where
  "not_iterable v = (case v of JInt n \<Rightarrow> True | JFloat x \<Rightarrow> True | JBool b \<Rightarrow> True | _ \<Rightarrow> False)"

text \<open>A float that is neither an infinity nor a NaN.\<close>

definition is_finite :: "pyfloat \<Rightarrow> bool" where
  "is_finite x = (case x of Finite q \<Rightarrow> True | NegZero \<Rightarrow> True | _ \<Rightarrow> False)"

text \<open>The part of the base-fare pattern after the digits of its group.\<close>

definition fare_tail :: "item list" where
  "fare_tail = [GClose, Star is_space] @ ci_text ''PP'' @
     [Star is_space, Chr (lit 47), Star is_space] @ ci_text ''USD''"

text \<open>A rest of the text at which a run of digits ends.\<close>

definition stops :: "pystr \<Rightarrow> bool" where
  "stops r \<longleftrightarrow> (case r of [] \<Rightarrow> True | c # t \<Rightarrow> c \<noteq> 95 \<and> \<not> is_digit c)"

text \<open>A text of ASCII characters that begins and ends with a digit.\<close>

definition plain :: "pystr \<Rightarrow> bool" where
  "plain s \<longleftrightarrow> s \<noteq> [] \<and> is_digit (hd s) \<and> is_digit (last s) \<and> (\<forall>c\<in>set s. c < 127)"

section \<open>Examples\<close>

text \<open>
  Concrete inputs on which the definitions are evaluated: a JSON library that knows the
  texts of the examples only (\<open>[255]\<close> stands for a file whose bytes are no UTF-8 text,
  which \<open>json.load\<close> cannot even read), a parser that returns a given tree, and pages.
\<close>

definition offer_text :: pystr where
  \<open>offer_text = str ''{"@type": "Offer", "price": "1899"}''\<close>

definition offer_json :: json where
  "offer_json = JDict [(str ''@type'', JStr (str ''Offer'')), (str ''price'', JStr (str ''1899''))]"

text \<open>The float that the literal \<open>493.55\<close> denotes.\<close>

definition f493_55 :: pyfloat where
  "f493_55 = round_double (49355 / 100)"

definition snapshot_text :: pystr where
  "snapshot_text = [91, 10] @ str ''  1899.0,'' @ [10] @ str ''  493.55'' @ [10, 93]"

definition snapshot_text_1999 :: pystr where
  "snapshot_text_1999 = [91, 10] @ str ''  1999.0,'' @ [10] @ str ''  493.55'' @ [10, 93]"

definition toy_loads :: "pystr \<Rightarrow> exn + json" where
  "toy_loads s =
     (if s = offer_text then Inr offer_json
      else if s = snapshot_text then Inr (JList [JFloat (Finite 1899), JFloat f493_55])
      else if s = snapshot_text_1999 then Inr (JList [JFloat (Finite 1999), JFloat f493_55])
      else if s = str ''5'' then Inr (JInt 5)
      else if s = str ''null'' then Inr JNull
      else if s = [255] then Inl (Exn UnicodeDecodeError (str ''invalid start byte''))
      else Inl (Exn JSONDecodeError (str ''Expecting value: line 1 column 1 (char 0)'')))"

definition toy_dumps :: "json \<Rightarrow> pystr" where
  "toy_dumps v =
     (if v = JList [JFloat (Finite 1899), JFloat f493_55] then snapshot_text
      else if v = JList [JFloat (Finite 1999), JFloat f493_55] then snapshot_text_1999
      else if v = JInt 5 then str ''5''
      else str ''null'')"

definition toy_libs :: "node \<Rightarrow> libs" where
  "toy_libs soup = \<lparr>bs4 = (\<lambda>html. Inr soup), json_loads = toy_loads, json_dumps = toy_dumps\<rparr>"

definition offer_script :: node where
  "offer_script =
     Tag (str ''script'') [] [(str ''type'', str ''application/ld+json'')] [SpecialString offer_text]"

definition page_a_soup :: node where
  "page_a_soup =
     Tag (str ''[document]'') [] []
       [offer_script,
        Tag (str ''span'') [str ''fare-price''] [] [NavigableString (str ''$1,999 PP / USD'')]]"

definition page_a_html :: pystr where
  \<open>page_a_html =
     str ''<script type="application/ld+json">'' @ offer_text @ str ''</script>'' @
     str ''<span class="fare-price">$1,999 PP / USD</span>'' @
     str ''<i>taxesAndFees: 493.55</i>''\<close>

definition page_b_soup :: node where
  "page_b_soup =
     Tag (str ''[document]'') [] []
       [offer_script,
        Tag (str ''div'') [str ''c544_disclaimer''] []
          [Tag (str ''ul'') [str ''c544_disclaimer_list''] []
             [Tag (str ''li'') [str ''c544_disclaimer_list_item''] []
                [Tag (str ''span'') [] []
                   [NavigableString (str ''+ Taxes, fees and port expenses $493.55 USD'')]]]]]"

definition empty_soup :: node where
  "empty_soup = Tag (str ''[document]'') [] [] []"

definition default_config :: config where
  "default_config =
     \<lparr>bot_token = str ''7915288038:AAGzGuF0aMgaJoYYU-EzsA2tdIxRavQkjKc'',
      chat_id = str ''-1002852664251'', interval = 1, store_f = str ''last_price.json''\<rparr>"

definition ok_env :: env where
  "ok_env =
     \<lparr>http_get = (\<lambda>url. Inr []), http_post = (\<lambda>url chat text. None),
      open_read = (\<lambda>path. None), open_write = (\<lambda>path. None),
      clock_sleep = (\<lambda>secs. None)\<rparr>"

definition down_env :: env where
  "down_env =
     ok_env\<lparr>http_get := (\<lambda>url. Inl (Exn RequestException (str ''Max retries exceeded'')))\<rparr>"

definition world0 :: world where
  "world0 = \<lparr>files = Map.empty, stdout = [], logged = [], posts = []\<rparr>"

definition stored :: "pystr \<Rightarrow> world" where
  "stored content = world0\<lparr>files := [str ''last_price.json'' \<mapsto> content]\<rparr>"

section \<open>Properties\<close>

subsection \<open>The base-fare pattern\<close>

lemma fare_pp_usd_re_unfold:
  "fare_pp_usd_re = Chr (lit 36) # GOpen # Chr is_digit_comma # Star is_digit_comma # fare_tail"
  by (simp add: fare_pp_usd_re_def fare_tail_def one_or_more_def)

lemma fare_tail_unfold: "fare_tail = GClose # Star is_space # Chr (ci 80) # tl (tl (tl fare_tail))"
  by (simp add: fare_tail_def ci_text_def str_def)

lemma fare_tail_stuck:
  assumes "\<not> is_space c" "\<not> ci 80 c"
  shows "re_match fare_tail (c # s) ing g = None"
  using assms by (subst fare_tail_unfold) simp

lemma digit_comma_not_PP: "is_digit_comma c \<Longrightarrow> \<not> is_space c \<and> \<not> ci 80 c"
  by (auto simp: is_digit_comma_def is_digit_def is_space_def ci_def to_lower_def)

lemma dot_not_PP: "\<not> is_space 46 \<and> \<not> ci 80 46 \<and> \<not> is_digit_comma 46"
  by (simp add: is_digit_comma_def is_digit_def is_space_def ci_def to_lower_def)

lemma fare_digits_then_dot:
  assumes "\<forall>c\<in>set ds. is_digit_comma c"
  shows "re_match (Star is_digit_comma # fare_tail) (ds @ 46 # rest) ing g = None"
  using assms
proof (induction ds arbitrary: g)
  case Nil
  then show ?case by (simp add: dot_not_PP fare_tail_stuck)
next
  case (Cons c ds)
  then show ?case by (simp add: digit_comma_not_PP fare_tail_stuck)
qed

lemma fare_match_at_dollar:
  assumes "\<forall>c\<in>set ds. is_digit_comma c"
  shows "re_match fare_pp_usd_re (36 # ds @ 46 # rest) False [] = None"
proof (cases ds)
  case Nil
  then show ?thesis by (simp add: fare_pp_usd_re_unfold dot_not_PP lit_def)
next
  case (Cons c cs)
  with assms have "\<forall>c\<in>set cs. is_digit_comma c" by simp
  from fare_digits_then_dot [OF this] Cons show ?thesis
    by (simp add: fare_pp_usd_re_unfold lit_def)
qed

lemma fare_match_needs_dollar: "c \<noteq> 36 \<Longrightarrow> re_match fare_pp_usd_re (c # s) False [] = None"
  by (simp add: fare_pp_usd_re_unfold lit_def)

lemma fare_search_needs_dollar: "36 \<notin> set s \<Longrightarrow> re_search fare_pp_usd_re s = None"
proof (induction s)
  case Nil
  then show ?case by (simp add: fare_pp_usd_re_unfold)
next
  case (Cons c s)
  then show ?case by (simp add: fare_match_needs_dollar)
qed


lemma re_match_group_closed:
  "\<not> ing \<Longrightarrow> GOpen \<notin> set p \<Longrightarrow> re_match p s ing g = Some r \<Longrightarrow> r = g"
  by (induction p s ing g rule: re_match.induct) (auto split: if_splits option.splits)

lemma fare_tail_keeps_group: "re_match fare_tail s True g = Some r \<Longrightarrow> r = g"
proof -
  assume a: "re_match fare_tail s True g = Some r"
  have "fare_tail = GClose # tl fare_tail" by (simp add: fare_tail_def)
  with a have "re_match (GClose # tl fare_tail) s True g = Some r" by simp
  then have "re_match (tl fare_tail) s False g = Some r" by simp
  moreover have "GOpen \<notin> set (tl fare_tail)" by (simp add: fare_tail_def ci_text_def str_def)
  ultimately show ?thesis using re_match_group_closed by blast
qed

lemma fare_group_digits:
  "re_match (Star is_digit_comma # fare_tail) s True g = Some r \<Longrightarrow>
   \<exists>t. r = g @ t \<and> (\<forall>c\<in>set t. is_digit_comma c)"
proof (induction s arbitrary: g)
  case Nil
  then show ?case by (auto dest: fare_tail_keeps_group)
next
  case (Cons c s)
  show ?case
  proof (cases "is_digit_comma c")
    case False
    with Cons.prems show ?thesis by (auto dest: fare_tail_keeps_group)
  next
    case True
    show ?thesis
    proof (cases "re_match (Star is_digit_comma # fare_tail) s True (g @ [c])")
      case None
      with True Cons.prems show ?thesis by (auto dest: fare_tail_keeps_group)
    next
      case (Some r')
      with True Cons.prems have "r' = r" by simp
      with Some Cons.IH [of "g @ [c]"] True show ?thesis by auto
    qed
  qed
qed

lemma fare_match_whole:
  assumes "re_match fare_pp_usd_re s False [] = Some r"
  shows "r \<noteq> [] \<and> (\<forall>c\<in>set r. is_digit_comma c)"
proof -
  from assms obtain c s' where s: "s = 36 # c # s'" and c: "is_digit_comma c"
    and m: "re_match (Star is_digit_comma # fare_tail) s' True [c] = Some r"
    by (cases s; cases "tl s") (auto simp: fare_pp_usd_re_unfold lit_def split: if_splits)
  from fare_group_digits [OF m] c show ?thesis by auto
qed

lemma fare_search_whole:
  "re_search fare_pp_usd_re s = Some r \<Longrightarrow> r \<noteq> [] \<and> (\<forall>c\<in>set r. is_digit_comma c)"
  by (induction s) (auto split: option.splits dest: fare_match_whole)

text \<open>
  C10. The pattern \<^verbatim>\<open>\$([0-9,]+)\s*PP\s*/\s*USD\<close>, which strategy 2 and the first
  base-fare pattern of strategy 3 search for, matches whole-dollar amounts only. A text
  whose only dollar sign starts an amount with a decimal point after its digits and
  commas (as in "$1,899.50 PP / USD") has no match at all, and whatever text the pattern
  does match, the captured amount is a non-empty run of digits and commas.
\<close>

theorem fare_pattern_rejects_cents:
  assumes "\<forall>c\<in>set whole. is_digit_comma c"
    and "36 \<notin> set before" and "36 \<notin> set after"
  shows "re_search fare_pp_usd_re (before @ str ''$'' @ whole @ str ''.'' @ after) = None \<and>
         (\<forall>s g. re_search fare_pp_usd_re s = Some g \<longrightarrow>
                g \<noteq> [] \<and> (\<forall>c\<in>set g. is_digit_comma c))"
proof
  show "re_search fare_pp_usd_re (before @ str ''$'' @ whole @ str ''.'' @ after) = None"
    using assms(2)
  proof (induction before)
    case Nil
    have "36 \<notin> set (whole @ 46 # after)"
      using assms(1,3) by (auto simp: is_digit_comma_def is_digit_def)
    then have "re_search fare_pp_usd_re (whole @ 46 # after) = None"
      by (rule fare_search_needs_dollar)
    then show ?case
      using fare_match_at_dollar [OF assms(1), of after] by (simp add: str_def)
  next
    case (Cons c before)
    then show ?case by (simp add: fare_match_needs_dollar)
  qed
  show "\<forall>s g. re_search fare_pp_usd_re s = Some g \<longrightarrow>
          g \<noteq> [] \<and> (\<forall>c\<in>set g. is_digit_comma c)"
    using fare_search_whole by blast
qed

theorem fare_pattern_rejects_cents_witness:
  "re_search fare_pp_usd_re (str ''Fare: $1,899.50 PP / USD'') = None"
proof -
  have w: "\<forall>c\<in>set (str ''1,899''). is_digit_comma c"
    by (simp add: str_def is_digit_comma_def is_digit_def)
  have b: "36 \<notin> set (str ''Fare: '')" by (simp add: str_def)
  have a: "36 \<notin> set (str ''50 PP / USD'')" by (simp add: str_def)
  from fare_pattern_rejects_cents [OF w b a]
  have "re_search fare_pp_usd_re
          (str ''Fare: '' @ str ''$'' @ str ''1,899'' @ str ''.'' @ str ''50 PP / USD'') = None"
    by (rule conjunct1)
  then show ?thesis by (simp add: str_def)
qed

subsection \<open>The example pages, evaluated\<close>

lemma toy_libs_simps:
  "bs4 (toy_libs soup) html = Inr soup"
  "json_loads (toy_libs soup) = toy_loads"
  "json_dumps (toy_libs soup) = toy_dumps"
  by (simp_all add: toy_libs_def)

lemmas eval_simps = str_def is_digit_def is_digit_comma_def is_space_def is_quote_def lit_def ci_def
  to_lower_def ci_text_def one_or_more_def amount_group_def

lemmas float_str_simps = py_float_str_def strip_def to_ascii_def is_ascii_space_def decimal_def
  exponent_def digits_val_def pow10_def
  remove_commas_def amount_def Let_def

lemma rd_493_55: "round_double (9871 / 20) = Finite (8682623422221517 / 17592186044416)"
  by code_simp

lemma f493_55_value: "f493_55 = Finite (8682623422221517 / 17592186044416)"
  by (simp add: f493_55_def rd_493_55)
lemma rd_1899: "round_double 1899 = Finite 1899"
  by code_simp
lemma rd_1999: "round_double 1999 = Finite 1999"
  by code_simp

lemma amount_1999: "amount (str ''1,999'') = Inr (Finite 1999)"
  by (simp add: float_str_simps eval_simps rd_1999)
lemma amount_493_55: "amount (str ''493.55'') = Inr f493_55"
  by (simp add: float_str_simps eval_simps f493_55_value rd_493_55)
lemma float_1899: "py_float (JStr (str ''1899'')) = Inr (Finite 1899)"
  by (simp add: py_float_def float_str_simps eval_simps rd_1899)

lemma page_a_no_disclaimer: "find_tag is_disclaimer_div page_a_soup = None"
  by (simp add: find_tag_def find_all_def page_a_soup_def offer_script_def class_is_def str_def)

lemma page_a_taxes: "find_taxes page_a_soup = Inr None"
  by (simp add: find_taxes_def page_a_no_disclaimer)

lemma offer_string: "tag_string offer_script = Some offer_text"
  by (simp add: offer_script_def)

lemma loads_offer: "toy_loads offer_text = Inr offer_json"
  by (simp add: toy_loads_def)

lemma price_neq_type: "str ''price'' \<noteq> str ''@type''"
  by (simp add: str_def)

lemma page_a_break: "script_body (toy_libs page_a_soup) page_a_soup offer_script = Inr Break"
  by (simp add: script_body_def offer_string toy_libs_simps loads_offer offer_json_def price_neq_type
      float_1899 page_a_taxes)

lemma page_a_price_elements:
  "find_all is_price_element page_a_soup =
     [Tag (str ''span'') [str ''fare-price''] [] [NavigableString (str ''$1,999 PP / USD'')]]"
  by (simp add: find_all_def page_a_soup_def offer_script_def class_matches_def
      price_cost_fare_def str_def)

lemma fare_1999: "re_search fare_pp_usd_re (str ''$1,999 PP / USD'') = Some (str ''1,999'')"
  by (simp add: fare_pp_usd_re_def eval_simps)

lemma page_a_base: "scan_price_elements (find_all is_price_element page_a_soup) = Inr (Some (Finite 1999))"
  by (simp add: page_a_price_elements fare_1999 amount_1999) (simp add: str_def)

lemma page_a_s2: "strategy2 (toy_libs page_a_soup) page_a_html = None"
  by (simp add: strategy2_def toy_libs_simps page_a_base disclaimer_taxes_def page_a_no_disclaimer)

lemma page_a_fare: "re_search fare_pp_usd_re (sub_spaces False page_a_html) = Some (str ''1,999'')"
  by (simp add: page_a_html_def offer_text_def fare_pp_usd_re_def eval_simps)

lemma page_a_tax1: "re_search taxes_re (sub_spaces False page_a_html) = None"
  by (simp add: page_a_html_def offer_text_def taxes_re_def eval_simps)

lemma page_a_tax2: "re_search plus_taxes_re (sub_spaces False page_a_html) = None"
  by (simp add: page_a_html_def offer_text_def plus_taxes_re_def taxes_re_def eval_simps)

lemma page_a_tax3: "re_search taxes_and_fees_re (sub_spaces False page_a_html) = Some (str ''493.55'')"
  by (simp add: page_a_html_def offer_text_def taxes_and_fees_re_def eval_simps)

lemma page_a_s3: "strategy3 page_a_html = Some (Finite 1999, f493_55)"
  by (simp add: strategy3_def fare_patterns_def tax_patterns_def page_a_fare page_a_tax1
      page_a_tax2 page_a_tax3 amount_1999 amount_493_55)


lemma page_b_scripts: "find_all is_json_ld_script page_b_soup = [offer_script]"
  by (simp add: find_all_def page_b_soup_def offer_script_def str_def)

lemma page_b_div:
  "find_tag is_disclaimer_div page_b_soup =
     Some (Tag (str ''div'') [str ''c544_disclaimer''] []
          [Tag (str ''ul'') [str ''c544_disclaimer_list''] []
             [Tag (str ''li'') [str ''c544_disclaimer_list_item''] []
                [Tag (str ''span'') [] []
                   [NavigableString (str ''+ Taxes, fees and port expenses $493.55 USD'')]]]])"
  by (simp add: find_tag_def find_all_def page_b_soup_def offer_script_def class_is_def str_def)

lemma page_b_ul:
  "find_tag is_disclaimer_list (Tag (str ''div'') [str ''c544_disclaimer''] []
          [Tag (str ''ul'') [str ''c544_disclaimer_list''] []
             [Tag (str ''li'') [str ''c544_disclaimer_list_item''] []
                [Tag (str ''span'') [] []
                   [NavigableString (str ''+ Taxes, fees and port expenses $493.55 USD'')]]]]) =
   Some (Tag (str ''ul'') [str ''c544_disclaimer_list''] []
             [Tag (str ''li'') [str ''c544_disclaimer_list_item''] []
                [Tag (str ''span'') [] []
                   [NavigableString (str ''+ Taxes, fees and port expenses $493.55 USD'')]]])"
  by (simp add: find_tag_def find_all_def class_is_def str_def)

lemma page_b_items:
  "find_all is_disclaimer_item (Tag (str ''ul'') [str ''c544_disclaimer_list''] []
             [Tag (str ''li'') [str ''c544_disclaimer_list_item''] []
                [Tag (str ''span'') [] []
                   [NavigableString (str ''+ Taxes, fees and port expenses $493.55 USD'')]]]) =
   [Tag (str ''li'') [str ''c544_disclaimer_list_item''] []
                [Tag (str ''span'') [] []
                   [NavigableString (str ''+ Taxes, fees and port expenses $493.55 USD'')]]]"
  by (simp add: find_all_def class_is_def str_def)

lemma page_b_span:
  "find_tag is_span (Tag (str ''li'') [str ''c544_disclaimer_list_item''] []
                [Tag (str ''span'') [] []
                   [NavigableString (str ''+ Taxes, fees and port expenses $493.55 USD'')]]) =
   Some (Tag (str ''span'') [] []
                   [NavigableString (str ''+ Taxes, fees and port expenses $493.55 USD'')])"
  by (simp add: find_tag_def find_all_def)

lemma dollar_493_55:
  "re_search dollar_amount_re (str ''+ Taxes, fees and port expenses $493.55 USD'') = Some (str ''493.55'')"
  by (simp add: dollar_amount_re_def eval_simps)

lemma page_b_taxes: "find_taxes page_b_soup = Inr (Some f493_55)"
  by (simp add: find_taxes_def page_b_div page_b_ul page_b_items page_b_span dollar_493_55
      amount_493_55) (simp add: str_def)

lemma page_b_return:
  "script_body (toy_libs page_b_soup) page_b_soup offer_script = Inr (Return (Finite 1899, f493_55))"
  by (simp add: script_body_def offer_string toy_libs_simps loads_offer offer_json_def price_neq_type
      float_1899 page_b_taxes)

lemma page_b_s1: "strategy1 (toy_libs page_b_soup) html = Some (Finite 1899, f493_55)"
  by (simp add: strategy1_def toy_libs_simps page_b_scripts page_b_return)

lemma empty_s1: "strategy1 (toy_libs empty_soup) [] = None"
  by (simp add: strategy1_def toy_libs_simps empty_soup_def find_all_def)

lemma empty_s2: "strategy2 (toy_libs empty_soup) [] = None"
  by (simp add: strategy2_def toy_libs_simps empty_soup_def find_all_def find_tag_def disclaimer_taxes_def)

lemma empty_s3: "strategy3 [] = None"
  by (simp add: strategy3_def fare_patterns_def tax_patterns_def fare_pp_usd_re_def json_price_re_def
      price_from_re_def taxes_re_def plus_taxes_re_def taxes_and_fees_re_def eval_simps)

subsection \<open>The strategies of \<open>parse_price\<close>\<close>

lemma script_body_Return:
  "script_body L soup script = Inr (Return (b, t)) \<Longrightarrow> find_taxes soup = Inr (Some t)"
  by (auto simp: script_body_def split: option.splits sum.splits json.splits if_splits)

lemma scripts_loop_Some:
  "scripts_loop L soup scripts = Inr (Some (b, t)) \<Longrightarrow> find_taxes soup = Inr (Some t)"
proof (induction scripts)
  case Nil
  then show ?case by simp
next
  case (Cons script scripts)
  then show ?case
    by (auto split: sum.splits step.splits if_splits dest: script_body_Return)
qed

lemma strategy1_Some:
  "strategy1 L html = Some (b, t) \<Longrightarrow> \<exists>soup. bs4 L html = Inr soup \<and> find_taxes soup = Inr (Some t)"
  by (auto simp: strategy1_def split: sum.splits dest: scripts_loop_Some)

lemma both_Some: "both x y = Some (b, t) \<longleftrightarrow> x = Some b \<and> y = Some t"
  by (cases x; cases y) auto

lemma strategy2_Some:
  "strategy2 L html = Some (b, t) \<longleftrightarrow>
     (\<exists>soup. bs4 L html = Inr soup \<and>
        scan_price_elements (find_all is_price_element soup) = Inr (Some b) \<and>
        disclaimer_taxes soup = Inr (Some t))"
  by (auto simp: strategy2_def both_Some split: sum.splits)

lemma strategy3_Some:
  "strategy3 html = Some (b, t) \<longleftrightarrow>
     first_match fare_patterns (sub_spaces False html) = Inr (Some b) \<and>
     first_match tax_patterns (sub_spaces False html) = Inr (Some t)"
  by (auto simp: strategy3_def both_Some Let_def split: sum.splits)

lemma scripts_loop_Some_script:
  "scripts_loop L soup scripts = Inr (Some r) \<Longrightarrow>
   \<exists>script. script \<in> set scripts \<and> script_body L soup script = Inr (Return r)"
proof (induction scripts)
  case Nil
  then show ?case by simp
next
  case (Cons script scripts)
  then show ?case
    by (auto split: sum.splits step.splits if_splits)
qed

lemma parse_price_cases:
  "parse_price L html =
     (case strategy1 L html of
        Some r \<Rightarrow> Inr r
      | None \<Rightarrow>
          (case strategy2 L html of
             Some r \<Rightarrow> Inr r
           | None \<Rightarrow> (case strategy3 html of Some r \<Rightarrow> Inr r | None \<Rightarrow> Inl no_price_block)))"
  by (simp add: parse_price_def)

text \<open>
  C1. When the disclaimer scan of strategy 1 yields no taxes (the case in which an
  Offer block gave a price and the loop breaks, among others), strategy 1 returns
  nothing: \<open>parse_price\<close> is what strategies 2 and 3 make of the page, which take no
  value from strategy 1, and a pair that it returns has both of its values found by
  strategy 2, or both by strategy 3.
\<close>

theorem partial_offer_falls_through:
  assumes "bs4 L html = Inr soup"
    and "\<And>t. find_taxes soup \<noteq> Inr (Some t)"
  shows "strategy1 L html = None \<and>
         parse_price L html =
           (case strategy2 L html of
              Some r \<Rightarrow> Inr r
            | None \<Rightarrow> (case strategy3 html of Some r \<Rightarrow> Inr r | None \<Rightarrow> Inl no_price_block)) \<and>
         (\<forall>b t. parse_price L html = Inr (b, t) \<longrightarrow>
            scan_price_elements (find_all is_price_element soup) = Inr (Some b) \<and>
            disclaimer_taxes soup = Inr (Some t) \<or>
            first_match fare_patterns (sub_spaces False html) = Inr (Some b) \<and>
            first_match tax_patterns (sub_spaces False html) = Inr (Some t))"
proof -
  have s1: "strategy1 L html = None"
  proof (cases "strategy1 L html")
    case None
    then show ?thesis .
  next
    case (Some r)
    obtain b t where "r = (b, t)" by (cases r)
    with Some strategy1_Some [of L html b t] assms show ?thesis by auto
  qed
  then have eq: "parse_price L html =
           (case strategy2 L html of
              Some r \<Rightarrow> Inr r
            | None \<Rightarrow> (case strategy3 html of Some r \<Rightarrow> Inr r | None \<Rightarrow> Inl no_price_block))"
    by (simp add: parse_price_cases)
  have "scan_price_elements (find_all is_price_element soup) = Inr (Some b) \<and>
        disclaimer_taxes soup = Inr (Some t) \<or>
        first_match fare_patterns (sub_spaces False html) = Inr (Some b) \<and>
        first_match tax_patterns (sub_spaces False html) = Inr (Some t)"
    if "parse_price L html = Inr (b, t)" for b t
  proof (cases "strategy2 L html")
    case (Some r)
    with that eq have "strategy2 L html = Some (b, t)" by simp
    with assms(1) show ?thesis by (auto simp: strategy2_Some)
  next
    case None
    with that eq have "strategy3 html = Some (b, t)" by (simp split: option.splits)
    then show ?thesis by (simp add: strategy3_Some)
  qed
  with s1 eq show ?thesis by blast
qed

theorem partial_offer_falls_through_witness:
  "script_body (toy_libs page_a_soup) page_a_soup offer_script = Inr Break \<and>
   parse_price (toy_libs page_a_soup) page_a_html = Inr (Finite 1999, f493_55)"
proof -
  have h1: "bs4 (toy_libs page_a_soup) page_a_html = Inr page_a_soup"
    by (rule toy_libs_simps)
  have h2: "\<And>t. find_taxes page_a_soup \<noteq> Inr (Some t)"
    by (simp add: page_a_taxes)
  from partial_offer_falls_through [OF h1 h2]
  have "parse_price (toy_libs page_a_soup) page_a_html =
          (case strategy2 (toy_libs page_a_soup) page_a_html of
              Some r \<Rightarrow> Inr r
            | None \<Rightarrow> (case strategy3 page_a_html of Some r \<Rightarrow> Inr r | None \<Rightarrow> Inl no_price_block))"
    by blast
  then have "parse_price (toy_libs page_a_soup) page_a_html = Inr (Finite 1999, f493_55)"
    by (simp add: page_a_s2 page_a_s3)
  with page_a_break show ?thesis by simp
qed

text \<open>
  C8. \<open>parse_price\<close> raises, and then the \<open>ValueError\<close> of line 191, exactly when none
  of the three strategies yields a pair; otherwise it returns the pair of the first
  strategy that yields one. A strategy yields a pair only when it has found both
  values itself.
\<close>

theorem parse_price_raises_iff_no_strategy:
  "(parse_price L html = Inl no_price_block \<longleftrightarrow>
      strategy1 L html = None \<and> strategy2 L html = None \<and> strategy3 html = None) \<and>
   (\<forall>e. parse_price L html = Inl e \<longrightarrow> e = no_price_block \<and> cls e = ValueError) \<and>
   (\<forall>r. strategy1 L html = Some r \<longrightarrow> parse_price L html = Inr r) \<and>
   (\<forall>r. strategy1 L html = None \<and> strategy2 L html = Some r \<longrightarrow> parse_price L html = Inr r) \<and>
   (\<forall>r. strategy1 L html = None \<and> strategy2 L html = None \<and> strategy3 html = Some r \<longrightarrow>
        parse_price L html = Inr r) \<and>
   (\<forall>b t. strategy1 L html = Some (b, t) \<longrightarrow>
      (\<exists>soup script. bs4 L html = Inr soup \<and> script \<in> set (find_all is_json_ld_script soup) \<and>
         script_body L soup script = Inr (Return (b, t)) \<and> find_taxes soup = Inr (Some t))) \<and>
   (\<forall>b t. strategy2 L html = Some (b, t) \<longleftrightarrow>
      (\<exists>soup. bs4 L html = Inr soup \<and>
         scan_price_elements (find_all is_price_element soup) = Inr (Some b) \<and>
         disclaimer_taxes soup = Inr (Some t))) \<and>
   (\<forall>b t. strategy3 html = Some (b, t) \<longleftrightarrow>
      first_match fare_patterns (sub_spaces False html) = Inr (Some b) \<and>
      first_match tax_patterns (sub_spaces False html) = Inr (Some t))"
proof -
  have a: "parse_price L html = Inl no_price_block \<longleftrightarrow>
      strategy1 L html = None \<and> strategy2 L html = None \<and> strategy3 html = None"
    by (simp add: parse_price_cases split: option.splits)
  have b: "\<forall>e. parse_price L html = Inl e \<longrightarrow> e = no_price_block \<and> cls e = ValueError"
    by (auto simp: parse_price_cases no_price_block_def split: option.splits)
  have c: "\<forall>r. strategy1 L html = Some r \<longrightarrow> parse_price L html = Inr r"
    by (simp add: parse_price_cases)
  have d: "\<forall>r. strategy1 L html = None \<and> strategy2 L html = Some r \<longrightarrow> parse_price L html = Inr r"
    by (simp add: parse_price_cases)
  have e: "\<forall>r. strategy1 L html = None \<and> strategy2 L html = None \<and> strategy3 html = Some r \<longrightarrow>
        parse_price L html = Inr r"
    by (simp add: parse_price_cases)
  have f: "\<forall>b t. strategy1 L html = Some (b, t) \<longrightarrow>
      (\<exists>soup script. bs4 L html = Inr soup \<and> script \<in> set (find_all is_json_ld_script soup) \<and>
         script_body L soup script = Inr (Return (b, t)) \<and> find_taxes soup = Inr (Some t))"
  proof (intro allI impI)
    fix b t
    assume s: "strategy1 L html = Some (b, t)"
    then obtain soup where soup: "bs4 L html = Inr soup"
      and loop: "scripts_loop L soup (find_all is_json_ld_script soup) = Inr (Some (b, t))"
      by (auto simp: strategy1_def split: sum.splits)
    from scripts_loop_Some_script [OF loop] obtain script
      where "script \<in> set (find_all is_json_ld_script soup)"
        and "script_body L soup script = Inr (Return (b, t))" by blast
    with soup scripts_loop_Some [OF loop]
    show "\<exists>soup script. bs4 L html = Inr soup \<and> script \<in> set (find_all is_json_ld_script soup) \<and>
         script_body L soup script = Inr (Return (b, t)) \<and> find_taxes soup = Inr (Some t)"
      by blast
  qed
  from a b c d e f strategy2_Some [of L html] strategy3_Some [of html] show ?thesis
    by blast
qed

theorem parse_price_raises_iff_no_strategy_witness:
  "parse_price (toy_libs empty_soup) [] = Inl no_price_block \<and>
   parse_price (toy_libs page_b_soup) [] = Inr (Finite 1899, f493_55)"
proof -
  note t1 = parse_price_raises_iff_no_strategy [of "toy_libs empty_soup" "[]"]
  note t2 = parse_price_raises_iff_no_strategy [of "toy_libs page_b_soup" "[]"]
  from t1 have "parse_price (toy_libs empty_soup) [] = Inl no_price_block"
    using empty_s1 empty_s2 empty_s3 by blast
  moreover from t2 have "parse_price (toy_libs page_b_soup) [] = Inr (Finite 1899, f493_55)"
    using page_b_s1 [of "[]"] by blast
  ultimately show ?thesis by simp
qed

subsection \<open>\<open>float\<close> reads back what \<open>float.__repr__\<close> writes\<close>

lemma pow10_powi: "pow10 e = power_int 10 e"
  by (simp add: pow10_def power_int_def inverse_eq_divide power_divide)

lemma pow10_add: "pow10 (a + b) = pow10 a * pow10 b"
  by (simp add: pow10_powi power_int_add)

lemma pow10_nat: "pow10 (int n) = 10 ^ n"
  by (simp add: pow10_powi)

lemma pow10_0: "pow10 0 = 1"
  by (simp add: pow10_def)

lemma pow10_neg_pos: "pow10 (- a) * pow10 a = 1"
  using pow10_add [of "- a" a] by (simp add: pow10_0)

lemma digits_of_small: "n < 10 \<Longrightarrow> digits_of n = [nat (48 + n)]"
  by (subst digits_of.simps) simp

lemma digits_of_large: "\<not> n < 10 \<Longrightarrow> digits_of n = digits_of (n div 10) @ [nat (48 + n mod 10)]"
  by (subst digits_of.simps) simp

lemma digits_of_digit: "0 \<le> n \<Longrightarrow> c \<in> set (digits_of n) \<Longrightarrow> is_digit c"
proof (induction n arbitrary: c rule: digits_of.induct)
  case (1 n)
  show ?case
  proof (cases "n < 10")
    case True
    with "1.prems" show ?thesis
      by (auto simp: digits_of_small is_digit_def)
  next
    case False
    with "1.prems" have "c \<in> set (digits_of (n div 10)) \<or> c = nat (48 + n mod 10)"
      by (auto simp: digits_of_large)
    moreover have "0 \<le> n div 10" using "1.prems"(1) by simp
    moreover have "is_digit (nat (48 + n mod 10))"
    proof -
      have "0 \<le> n mod 10" and "n mod 10 < 10" by simp_all
      then show ?thesis by (simp add: is_digit_def nat_le_iff le_nat_iff)
    qed
    ultimately show ?thesis using "1.IH" [OF False] by blast
  qed
qed

lemma digits_of_nonempty: "digits_of n \<noteq> []"
  by (subst digits_of.simps) simp

lemma digits_val_Cons: "digits_val (c # b) = (int c - 48) * 10 ^ length b + digits_val b"
proof -
  let ?f = "\<lambda>a c. 10 * a + (int c - 48)"
  have "foldl ?f x b = x * 10 ^ length b + foldl ?f 0 b" for x
  proof (induction b arbitrary: x)
    case Nil
    then show ?case by simp
  next
    case (Cons d b)
    have "foldl ?f x (d # b) = foldl ?f (?f x d) b" by simp
    also have "\<dots> = ?f x d * 10 ^ length b + foldl ?f 0 b" by (rule Cons.IH)
    also have "\<dots> = x * 10 ^ length (d # b) + (?f 0 d * 10 ^ length b + foldl ?f 0 b)"
      by (simp add: algebra_simps)
    also have "?f 0 d * 10 ^ length b + foldl ?f 0 b = foldl ?f (?f 0 d) b"
      by (rule Cons.IH [symmetric])
    also have "foldl ?f (?f 0 d) b = foldl ?f 0 (d # b)" by simp
    finally show ?case .
  qed
  from this [of "int c - 48"] show ?thesis by (simp add: digits_val_def)
qed

lemma digits_val_Nil: "digits_val [] = 0"
  by (simp add: digits_val_def)

lemma digits_val_append: "digits_val (a @ b) = digits_val a * 10 ^ length b + digits_val b"
  by (induction a) (simp_all add: digits_val_Cons digits_val_Nil algebra_simps power_add)

lemma digits_val_single: "digits_val [c] = int c - 48"
  by (simp add: digits_val_def)

lemma digits_val_zeros: "digits_val (replicate j 48) = 0"
  by (induction j) (simp_all add: digits_val_def)

lemma digits_val_digits_of: "0 \<le> n \<Longrightarrow> digits_val (digits_of n) = n"
proof (induction n rule: digits_of.induct)
  case (1 n)
  show ?case
  proof (cases "n < 10")
    case True
    with "1.prems" show ?thesis
      by (subst digits_of.simps) (simp add: digits_val_single)
  next
    case False
    with "1.prems" "1.IH" have "digits_val (digits_of (n div 10)) = n div 10" by simp
    with False "1.prems" show ?thesis
      by (subst digits_of.simps) (simp add: digits_val_append digits_val_single)
  qed
qed

lemma digitpart_stops: "stops r \<Longrightarrow> digitpart r = ([], r)"
  by (cases r) (simp_all add: stops_def)

lemma digitpart_step:
  assumes "is_digit c" and "\<And>t. s \<noteq> 95 # t"
  shows "digitpart (c # s) = (case digitpart s of (ds, r) \<Rightarrow> (c # ds, r))"
  using assms by (auto split: list.splits)

lemma digitpart_digits:
  assumes "\<forall>c\<in>set ds. is_digit c" and "stops r"
  shows "digitpart (ds @ r) = (ds, r)"
  using assms(1)
proof (induction ds)
  case Nil
  with assms(2) show ?case by (simp add: digitpart_stops)
next
  case (Cons c ds)
  then have ih: "digitpart (ds @ r) = (ds, r)" and c: "is_digit c" by simp_all
  have "ds @ r \<noteq> 95 # t" for t
  proof (cases ds)
    case Nil
    with assms(2) show ?thesis by (auto simp: stops_def)
  next
    case (Cons a as)
    with Cons.prems have "is_digit a" by simp
    with Cons show ?thesis by (auto simp: is_digit_def)
  qed
  from digitpart_step [OF c this] ih show ?case by simp
qed

lemma stops_simps: "stops []" "stops (46 # t)" "stops (101 # t)"
  by (simp_all add: stops_def is_digit_def)

lemma exponent_Nil: "exponent [] = Some 0"
  by (simp add: exponent_def)

lemma exponent_signed:
  assumes "\<forall>c\<in>set ds. is_digit c" and "ds \<noteq> []" and "sg = 43 \<or> sg = 45"
  shows "exponent (101 # sg # ds) = Some (if sg = 45 then - digits_val ds else digits_val ds)"
proof -
  have "digitpart ds = (ds, [])"
    using digitpart_digits [OF assms(1) stops_simps(1)] by simp
  with assms(2,3) show ?thesis by (auto simp: exponent_def)
qed

lemma decimal_with_point:
  assumes "\<forall>c\<in>set ip. is_digit c" and "\<forall>c\<in>set fp. is_digit c" and "ip \<noteq> []"
    and "stops r" and "exponent r = Some ex"
  shows "decimal (ip @ 46 # fp @ r) =
           Some (of_int (digits_val (ip @ fp)) * pow10 (ex - int (length fp)))"
proof -
  have a: "digitpart (ip @ 46 # fp @ r) = (ip, 46 # fp @ r)"
    by (rule digitpart_digits [OF assms(1) stops_simps(2)])
  have b: "digitpart (fp @ r) = (fp, r)"
    by (rule digitpart_digits [OF assms(2,4)])
  show ?thesis
    using assms(3) by (simp add: decimal_def a b assms(5) del: digitpart.simps)
qed

lemma decimal_without_point:
  assumes "\<forall>c\<in>set ip. is_digit c" and "ip \<noteq> []"
    and "r = [] \<or> (\<exists>t. r = 101 # t)" and "exponent r = Some ex"
  shows "decimal (ip @ r) = Some (of_int (digits_val ip) * pow10 ex)"
proof -
  from assms(3) have s: "stops r" by (auto simp: stops_simps)
  have a: "digitpart (ip @ r) = (ip, r)"
    by (rule digitpart_digits [OF assms(1) s])
  from assms(3) have "(case r of [] \<Rightarrow> ([], r) | x # t \<Rightarrow> if x = 46 then digitpart t else ([], r)) = ([], r)"
    by auto
  then show ?thesis
    using assms(2) by (simp add: decimal_def a assms(4) del: digitpart.simps)
qed

lemma two_digits_props:
  assumes "0 \<le> e"
  shows "\<forall>c\<in>set (two_digits e). is_digit c" and "two_digits e \<noteq> []"
    and "digits_val (two_digits e) = e"
  using assms digits_of_digit [of e]
  by (auto simp: two_digits_def is_digit_def digits_val_Cons digits_val_digits_of digits_of_nonempty)

lemma zeros_digits: "\<forall>c\<in>set (replicate j 48). is_digit c"
  by (simp add: is_digit_def)

lemma decimal_format_repr:
  assumes d: "\<forall>c\<in>set ds. is_digit c" and ne: "ds \<noteq> []"
  shows "decimal (format_repr ds decpt) =
           Some (of_int (digits_val ds) * pow10 (decpt - int (length ds)))"
proof -
  let ?n = "int (length ds)"
  consider (A) "- 4 < decpt" "decpt \<le> 0"
    | (B) "0 < decpt" "decpt < ?n" "decpt \<le> 16"
    | (C) "?n \<le> decpt" "decpt \<le> 16" "0 < decpt"
    | (S) "\<not> (- 4 < decpt \<and> decpt \<le> 16)"
    by linarith
  then show ?thesis
  proof cases
    case A
    have t: "format_repr ds decpt = [48] @ 46 # (replicate (nat (- decpt)) 48 @ ds) @ []"
      using A by (simp add: format_repr_def str_def)
    have dd: "\<forall>c\<in>set (replicate (nat (- decpt)) 48 @ ds). is_digit c"
      using d by (auto simp: is_digit_def)
    have "decimal ([48] @ 46 # (replicate (nat (- decpt)) 48 @ ds) @ []) =
            Some (of_int (digits_val ([48] @ (replicate (nat (- decpt)) 48 @ ds))) *
                  pow10 (0 - int (length (replicate (nat (- decpt)) 48 @ ds))))"
      by (rule decimal_with_point [OF _ dd _ stops_simps(1) exponent_Nil])
         (simp_all add: is_digit_def)
    also have "digits_val ([48] @ (replicate (nat (- decpt)) 48 @ ds)) = digits_val ds"
      by (simp add: digits_val_Cons digits_val_append digits_val_zeros)
    also have "0 - int (length (replicate (nat (- decpt)) 48 @ ds)) = decpt - ?n"
      using A by simp
    finally show ?thesis by (simp only: t)
  next
    case B
    let ?p = "nat decpt"
    have t: "format_repr ds decpt = take ?p ds @ 46 # drop ?p ds @ []"
      using B by (simp add: format_repr_def)
    have d1: "\<forall>c\<in>set (take ?p ds). is_digit c" using d by (auto dest: in_set_takeD)
    have d2: "\<forall>c\<in>set (drop ?p ds). is_digit c" using d by (auto dest: in_set_dropD)
    have n1: "take ?p ds \<noteq> []" using B ne by auto
    have "decimal (take ?p ds @ 46 # drop ?p ds @ []) =
            Some (of_int (digits_val (take ?p ds @ drop ?p ds)) *
                  pow10 (0 - int (length (drop ?p ds))))"
      by (rule decimal_with_point [OF d1 d2 n1 stops_simps(1) exponent_Nil])
    also have "0 - int (length (drop ?p ds)) = decpt - ?n" using B by simp
    finally show ?thesis by (simp only: t append_take_drop_id)
  next
    case C
    let ?i = "nat (decpt - ?n)"
    have t: "format_repr ds decpt = (ds @ replicate ?i 48) @ 46 # [48] @ []"
      using C by (simp add: format_repr_def str_def)
    have d1: "\<forall>c\<in>set (ds @ replicate ?i 48). is_digit c" using d by (auto simp: is_digit_def)
    have "decimal ((ds @ replicate ?i 48) @ 46 # [48] @ []) =
            Some (of_int (digits_val ((ds @ replicate ?i 48) @ [48])) * pow10 (0 - int (length [48::nat])))"
      by (rule decimal_with_point [OF d1 _ _ stops_simps(1) exponent_Nil])
         (use ne in \<open>simp_all add: is_digit_def\<close>)
    also have "digits_val ((ds @ replicate ?i 48) @ [48]) = digits_val ds * 10 ^ ?i * 10"
      by (simp add: digits_val_append digits_val_zeros digits_val_single)
    also have "of_int (digits_val ds * 10 ^ ?i * 10) * pow10 (0 - int (length [48::nat])) =
                 (of_int (digits_val ds) :: rat) * pow10 (decpt - ?n)"
    proof -
      have "pow10 (decpt - ?n) = 10 ^ ?i" using C pow10_nat [of ?i] by simp
      moreover have "pow10 (- 1) = 1 / 10" by (simp add: pow10_def)
      ultimately show ?thesis by simp
    qed
    finally show ?thesis by (simp only: t)
  next
    case S
    let ?e = "decpt - 1"
    let ?sg = "if ?e < 0 then 45 else 43 :: nat"
    let ?r = "101 # ?sg # two_digits \<bar>?e\<bar>"
    have ex: "exponent ?r = Some ?e"
      using exponent_signed [OF two_digits_props(1,2), of "\<bar>?e\<bar>" ?sg]
      by (auto simp: two_digits_props(3))
    show ?thesis
    proof (cases "1 < ?n")
      case False
      with ne have n1: "length ds = 1" by (cases ds) auto
      have t: "format_repr ds decpt = ds @ ?r"
        using S n1 by (auto simp: format_repr_def Let_def)
      have "decimal (ds @ ?r) = Some (of_int (digits_val ds) * pow10 ?e)"
        by (rule decimal_without_point [OF d ne _ ex]) simp
      with n1 show ?thesis by (simp only: t) simp
    next
      case True
      have t: "format_repr ds decpt = take 1 ds @ 46 # drop 1 ds @ ?r"
        using S True by (auto simp: format_repr_def Let_def)
      have d1: "\<forall>c\<in>set (take 1 ds). is_digit c" using d by (auto dest: in_set_takeD)
      have d2: "\<forall>c\<in>set (drop 1 ds). is_digit c" using d by (auto dest: in_set_dropD)
      have n1: "take 1 ds \<noteq> []" using ne by simp
      have "decimal (take 1 ds @ 46 # drop 1 ds @ ?r) =
              Some (of_int (digits_val (take 1 ds @ drop 1 ds)) *
                    pow10 (?e - int (length (drop 1 ds))))"
        by (rule decimal_with_point [OF d1 d2 n1 stops_simps(3) ex])
      also have "?e - int (length (drop 1 ds)) = decpt - ?n" using True by simp
      finally show ?thesis by (simp only: t append_take_drop_id)
    qed
  qed
qed


lemma round_half_even_of_int: "round_half_even (of_int z) = z"
  by (simp add: round_half_even_def)

lemma round_half_even_nonneg: "0 \<le> x \<Longrightarrow> 0 \<le> round_half_even x"
  by (auto simp: round_half_even_def Let_def)

lemma shortest_unfold:
  "s \<le> 1074 \<Longrightarrow>
   shortest q s =
     (let x = q * pow10 s;
          near = round_half_even x;
          far = (if of_int near \<le> x then near + 1 else near - 1)
      in if round_double (of_int near * pow10 (- s)) = Finite q then Some (near, s)
         else if round_double (of_int far * pow10 (- s)) = Finite q then Some (far, s)
         else shortest q (s + 1))"
  by (subst shortest.simps) simp

lemma shortest_beyond: "1074 < s \<Longrightarrow> shortest q s = None"
  by (subst shortest.simps) simp

lemma shortest_sound:
  "shortest q s = Some (m, s') \<Longrightarrow> round_double (of_int m * pow10 (- s')) = Finite q"
proof (induction q s rule: shortest.induct)
  case (1 q s)
  show ?case
  proof (cases "1074 < s")
    case True
    with "1.prems" show ?thesis by (simp add: shortest_beyond)
  next
    case False
    then have le: "s \<le> 1074" by simp
    define x where "x = q * pow10 s"
    define near where "near = round_half_even x"
    define far where "far = (if of_int near \<le> x then near + 1 else near - 1)"
    have u: "shortest q s =
       (if round_double (of_int near * pow10 (- s)) = Finite q then Some (near, s)
         else if round_double (of_int far * pow10 (- s)) = Finite q then Some (far, s)
         else shortest q (s + 1))"
      by (simp add: shortest_unfold [OF le] Let_def x_def near_def far_def)
    show ?thesis
    proof (cases "round_double (of_int near * pow10 (- s)) = Finite q")
      case True
      with u "1.prems" show ?thesis by auto
    next
      case n: False
      show ?thesis
      proof (cases "round_double (of_int far * pow10 (- s)) = Finite q")
        case True
        with u n "1.prems" show ?thesis by auto
      next
        case f: False
        with u n "1.prems" have "shortest q (s + 1) = Some (m, s')" by simp
        with "1.IH" [OF False x_def near_def far_def] n f show ?thesis
          by (simp add: x_def near_def far_def)
      qed
    qed
  qed
qed

lemma shortest_nonneg:
  "0 < q \<Longrightarrow> shortest q s = Some (m, s') \<Longrightarrow> 0 \<le> m"
proof (induction q s rule: shortest.induct)
  case (1 q s)
  show ?case
  proof (cases "1074 < s")
    case True
    with "1.prems" show ?thesis by (simp add: shortest_beyond)
  next
    case False
    then have le: "s \<le> 1074" by simp
    define x where "x = q * pow10 s"
    define near where "near = round_half_even x"
    define far where "far = (if of_int near \<le> x then near + 1 else near - 1)"
    have "0 < pow10 s" by (simp add: pow10_def)
    with "1.prems"(1) have x0: "0 \<le> x" by (simp add: x_def)
    then have n0: "0 \<le> near" by (simp add: near_def round_half_even_nonneg)
    have f0: "0 \<le> far"
    proof (cases "of_int near \<le> x")
      case True
      with n0 show ?thesis by (simp add: far_def)
    next
      case False
      with x0 have "(0::rat) < of_int near" by simp
      then have "0 < near" by simp
      with False show ?thesis by (simp add: far_def)
    qed
    have u: "shortest q s =
       (if round_double (of_int near * pow10 (- s)) = Finite q then Some (near, s)
         else if round_double (of_int far * pow10 (- s)) = Finite q then Some (far, s)
         else shortest q (s + 1))"
      by (simp add: shortest_unfold [OF le] Let_def x_def near_def far_def)
    show ?thesis
    proof (cases "round_double (of_int near * pow10 (- s)) = Finite q")
      case True
      with u "1.prems" n0 show ?thesis by auto
    next
      case n: False
      show ?thesis
      proof (cases "round_double (of_int far * pow10 (- s)) = Finite q")
        case True
        with u n "1.prems" f0 show ?thesis by auto
      next
        case f: False
        with u n "1.prems" have "shortest q (s + 1) = Some (m, s')" by simp
        with "1.IH" [OF False x_def near_def far_def] n f "1.prems"(1) show ?thesis
          by (simp add: x_def near_def far_def)
      qed
    qed
  qed
qed

lemma pow10_cancel: "x * pow10 s * pow10 (- s) = x"
proof -
  have "pow10 s * pow10 (- s) = pow10 (s + - s)" by (rule pow10_add [symmetric])
  then have "pow10 s * pow10 (- s) = 1" by (simp add: pow10_0)
  then show ?thesis by (simp add: mult.assoc)
qed

lemma shortest_complete:
  "round_double q = Finite q \<Longrightarrow> q * pow10 1074 = of_int z \<Longrightarrow> s \<le> 1074 \<Longrightarrow>
   shortest q s \<noteq> None"
proof (induction q s rule: shortest.induct)
  case (1 q s)
  note le = \<open>s \<le> 1074\<close>
  define x where "x = q * pow10 s"
  define near where "near = round_half_even x"
  define far where "far = (if of_int near \<le> x then near + 1 else near - 1)"
  have u: "shortest q s =
       (if round_double (of_int near * pow10 (- s)) = Finite q then Some (near, s)
         else if round_double (of_int far * pow10 (- s)) = Finite q then Some (far, s)
         else shortest q (s + 1))"
    by (simp add: shortest_unfold [OF le] Let_def x_def near_def far_def)
  show ?case
  proof (cases "round_double (of_int near * pow10 (- s)) = Finite q")
    case True
    with u show ?thesis by simp
  next
    case n: False
    show ?thesis
    proof (cases "round_double (of_int far * pow10 (- s)) = Finite q")
      case True
      with u n show ?thesis by simp
    next
      case f: False
      have "s \<noteq> 1074"
      proof
        assume s: "s = 1074"
        have "near = z" using "1.prems"(2) by (simp add: near_def x_def s round_half_even_of_int)
        then have "of_int near * pow10 (- s) = q * pow10 s * pow10 (- s)"
          using "1.prems"(2) by (simp add: s)
        then have "of_int near * pow10 (- s) = q" by (simp only: pow10_cancel)
        with n "1.prems"(1) show False by simp
      qed
      with le have s1: "s + 1 \<le> 1074" by simp
      have nle: "\<not> 1074 < s" using le by simp
      have "shortest q (s + 1) \<noteq> None"
        by (rule "1.IH" [OF nle x_def near_def far_def n f "1.prems"(1,2) s1])
      with u n f show ?thesis by simp
    qed
  qed
qed



lemma pow2_powi: "pow2 e = power_int 2 e"
  by (simp add: pow2_def power_int_def inverse_eq_divide power_divide)

lemma round_double_Finite_form:
  assumes "round_double q = Finite r"
  shows "\<exists>m ex. r = of_int m * pow2 ex \<and> - 1074 \<le> ex"
proof (cases "q = 0")
  case True
  with assms have "r = of_int 0 * pow2 0" by (simp add: round_double_def)
  then show ?thesis by (intro exI [of _ 0] exI [of _ "0::int"]) simp
next
  case False
  define ex where "ex = (if floor_log2 \<bar>q\<bar> < - 1022 then - 1074 else floor_log2 \<bar>q\<bar> - 52)"
  define m where "m = round_half_even (\<bar>q\<bar> / pow2 ex)"
  have ex: "- 1074 \<le> ex" by (simp add: ex_def)
  from assms False have "r = of_int m * pow2 ex \<or> r = - (of_int m * pow2 ex)"
    by (auto simp: round_double_def Let_def m_def ex_def split: if_splits)
  then show ?thesis
  proof
    assume "r = of_int m * pow2 ex"
    with ex show ?thesis by blast
  next
    assume "r = - (of_int m * pow2 ex)"
    then have "r = of_int (- m) * pow2 ex" by simp
    with ex show ?thesis by blast
  qed
qed

lemma scaled_integer:
  assumes "- int k \<le> ex"
  shows "\<exists>z. of_int m * pow2 ex * 10 ^ k = (of_int z :: rat)"
proof -
  have t: "(10::rat) ^ k = 2 ^ k * 5 ^ k"
    using power_mult_distrib [of "2::rat" 5 k] by simp
  have "pow2 ex * 2 ^ k = power_int 2 ex * power_int (2::rat) (int k)"
    by (simp add: pow2_powi)
  also have "\<dots> = power_int 2 (ex + int k)" by (simp add: power_int_add)
  also have "\<dots> = 2 ^ nat (ex + int k)" using assms by (simp add: power_int_def)
  finally have p: "pow2 ex * 2 ^ k = 2 ^ nat (ex + int k)" .
  have "of_int m * pow2 ex * 10 ^ k = of_int m * (pow2 ex * 2 ^ k) * 5 ^ k"
    by (simp add: t)
  also have "\<dots> = of_int (m * 2 ^ nat (ex + int k) * 5 ^ k)" by (simp add: p)
  finally show ?thesis by blast
qed

lemma double_exact:
  assumes "round_double q = Finite q"
  shows "\<exists>z. q * pow10 1074 = of_int z"
proof -
  from round_double_Finite_form [OF assms]
  obtain m ex where q: "q = of_int m * pow2 ex" and ex: "- 1074 \<le> ex" by blast
  have "pow10 1074 = pow10 (int 1074)" by (simp only: of_nat_numeral)
  then have p: "pow10 1074 = 10 ^ 1074" by (simp only: pow10_nat)
  from ex have "- int 1074 \<le> ex" by (simp only: of_nat_numeral)
  from scaled_integer [OF this, of m] show ?thesis by (simp only: q p)
qed

lemma round_double_neg: "q < 0 \<Longrightarrow> round_double (- q) = float_neg (round_double q)"
  by (auto simp: round_double_def Let_def)

lemma shortest_Some:
  assumes "round_double q = Finite q" and "s \<le> 1074"
  shows "\<exists>m s'. shortest q s = Some (m, s')"
proof -
  from double_exact [OF assms(1)] obtain z where "q * pow10 1074 = of_int z" ..
  from shortest_complete [OF assms(1) this assms(2)] show ?thesis by auto
qed



lemma pow2_pos: "0 < pow2 e"
  by (simp add: pow2_def)

lemma pow2_mono: "a \<le> b \<Longrightarrow> pow2 a \<le> pow2 b"
  unfolding pow2_powi by (rule power_int_increasing) simp_all

lemma double_lower:
  assumes "round_double q = Finite q" and "0 < q"
  shows "pow2 (- 1074) \<le> q"
proof -
  from round_double_Finite_form [OF assms(1)]
  obtain m ex where q: "q = of_int m * pow2 ex" and ex: "- 1074 \<le> ex" by blast
  have "0 < m"
  proof (rule ccontr)
    assume "\<not> 0 < m"
    then have "(of_int m :: rat) \<le> 0" by simp
    then have "of_int m * pow2 ex \<le> 0"
      using pow2_pos [of ex] by (simp add: mult_le_0_iff)
    with q assms(2) show False by simp
  qed
  then have "(1::rat) \<le> of_int m" by simp
  then have "1 * pow2 ex \<le> of_int m * pow2 ex"
    using pow2_pos [of ex] by (intro mult_right_mono) simp_all
  then have "pow2 ex \<le> q" by (simp add: q)
  with pow2_mono [OF ex] show ?thesis by (rule order_trans)
qed

lemma digits_of_length:
  "0 \<le> n \<Longrightarrow> n < 10 ^ k \<Longrightarrow> 0 < k \<Longrightarrow> length (digits_of n) \<le> k"
proof (induction k arbitrary: n)
  case 0
  then show ?case by simp
next
  case (Suc k)
  show ?case
  proof (cases "n < 10")
    case True
    then show ?thesis by (simp add: digits_of_small)
  next
    case False
    then have ge: "10 \<le> n" by simp
    have k: "0 < k"
    proof (rule ccontr)
      assume "\<not> 0 < k"
      with Suc.prems ge show False by simp
    qed
    from Suc.prems have lt: "n div 10 < 10 ^ k" by simp
    from ge have nn: "0 \<le> n div 10" by simp
    have "length (digits_of (n div 10)) \<le> k" by (rule Suc.IH [OF nn lt k])
    with ge show ?thesis by (simp add: digits_of_large)
  qed
qed

lemma floor_log10_lower:
  assumes low: "pow2 (- int k) \<le> q" and pos: "0 < q"
  shows "- int k - 1 \<le> floor_log10 q"
proof (cases "1 \<le> q")
  case True
  then show ?thesis by (simp add: floor_log10_def)
next
  case False
  define n where "n = \<lceil>1 / q\<rceil> - 1"
  from False pos have "1 < 1 / q" by simp
  then have "1 < \<lceil>1 / q\<rceil>" using pos by (simp add: less_ceiling_iff)
  then have n0: "0 \<le> n" unfolding n_def by linarith
  have "of_int n < 1 / q" unfolding n_def using ceiling_correct [of "1 / q"] by simp
  also have "1 / q \<le> 2 ^ k"
  proof -
    have "pow2 (- int k) = 1 / 2 ^ k" by (simp add: pow2_def)
    with low have "1 / 2 ^ k \<le> q" by simp
    then have "1 \<le> q * 2 ^ k" by (simp add: field_simps)
    with pos show ?thesis by (simp add: field_simps)
  qed
  also have "(2::rat) ^ k \<le> 10 ^ k" by (rule power_mono) simp_all
  also have "(10::rat) ^ k \<le> 10 ^ Suc k" by simp
  finally have "of_int n < (10::rat) ^ Suc k" .
  then have "(of_int n :: rat) < of_int (10 ^ Suc k)" by simp
  then have "n < 10 ^ Suc k" by (simp only: of_int_less_iff)
  with n0 have "length (digits_of n) \<le> Suc k" by (intro digits_of_length) simp_all
  with False show ?thesis by (simp add: floor_log10_def n_def)
qed

lemma start_in_range:
  assumes "round_double q = Finite q" and "0 < q"
  shows "- floor_log10 q - 1 \<le> 1074"
proof -
  have "pow2 (- 1074) = pow2 (- int 1074)" by (simp only: of_nat_numeral)
  with double_lower [OF assms] have "pow2 (- int 1074) \<le> q" by (simp only:)
  from floor_log10_lower [OF this assms(2)] have "- int 1074 - 1 \<le> floor_log10 q" .
  then have "- 1074 - 1 \<le> floor_log10 q" by (simp only: of_nat_numeral)
  then show ?thesis by simp
qed

lemma digit_ascii: "is_digit c \<Longrightarrow> c < 127"
  by (simp add: is_digit_def)

lemma format_repr_plain:
  assumes d: "\<forall>c\<in>set ds. is_digit c" and ne: "ds \<noteq> []"
  shows "plain (format_repr ds decpt)"
proof -
  from d ne have h: "is_digit (hd ds)" and l: "is_digit (last ds)" by simp_all
  have a: "\<forall>c\<in>set ds. c < 127" using d by (auto dest: digit_ascii)
  have z: "is_digit 48" by (simp add: is_digit_def)
  define e where "e = \<bar>decpt - 1\<bar>"
  have e: "\<forall>c\<in>set (two_digits e). is_digit c" "two_digits e \<noteq> []"
    by (rule two_digits_props, simp add: e_def)+
  then have el: "is_digit (last (two_digits e))" by simp
  have ea: "\<forall>c\<in>set (two_digits e). c < 127" using e(1) by (auto dest: digit_ascii)
  have t1: "take 1 ds = [hd ds]" using ne by (cases ds) simp_all
  have dr: "set (drop 1 ds) \<subseteq> set ds" by (rule set_drop_subset)
  show ?thesis
  proof (cases "- 4 < decpt \<and> decpt \<le> 16")
    case fixed: True
    show ?thesis
    proof (cases "decpt \<le> 0")
      case True
      with fixed h l a z ne show ?thesis
        by (auto simp: plain_def format_repr_def Let_def str_def is_digit_def)
    next
      case pos: False
      show ?thesis
      proof (cases "decpt < int (length ds)")
        case True
        with pos have p: "0 < nat decpt" "nat decpt < length ds" by simp_all
        then have tk: "take (nat decpt) ds \<noteq> []" "drop (nat decpt) ds \<noteq> []" using ne by simp_all
        have "hd (take (nat decpt) ds) = hd ds" using p by simp
        moreover have "last (drop (nat decpt) ds) = last ds" using p by simp
        moreover have "\<forall>c\<in>set (take (nat decpt) ds). c < 127" using a by (auto dest: in_set_takeD)
        moreover have "\<forall>c\<in>set (drop (nat decpt) ds). c < 127" using a by (auto dest: in_set_dropD)
        ultimately show ?thesis using fixed pos True h l tk
          by (auto simp: plain_def format_repr_def Let_def)
      next
        case False
        with fixed pos h l a z ne show ?thesis
          by (auto simp: plain_def format_repr_def Let_def str_def)
      qed
    qed
  next
    case False
    have s: "format_repr ds decpt =
        [hd ds] @ (if 1 < int (length ds) then 46 # drop 1 ds else []) @ [101] @
        (if decpt - 1 < 0 then [45] else [43]) @ two_digits e"
      using False ne by (cases ds) (auto simp: format_repr_def Let_def e_def)
    have "\<forall>c\<in>set (drop 1 ds). c < 127" using a dr by blast
    with h a ea el e(2) show ?thesis
      unfolding s plain_def by (auto dest: digit_ascii)
  qed
qed



lemma not_space_digit: "is_digit c \<Longrightarrow> \<not> is_ascii_space c"
  by (auto simp: is_digit_def is_ascii_space_def)

lemma to_ascii_plain: "\<forall>c\<in>set s. c < 127 \<Longrightarrow> map to_ascii s = s"
  by (induction s) (simp_all add: to_ascii_def)

lemma strip_id:
  assumes "s \<noteq> []" and "\<not> is_ascii_space (hd s)" and "\<not> is_ascii_space (last s)"
  shows "strip s = s"
proof -
  from assms(1,2) have a: "dropWhile is_ascii_space s = s" by (cases s) simp_all
  from assms(1,3) have "dropWhile is_ascii_space (rev s) = rev s"
    by (cases "rev s") (simp_all add: last_rev [symmetric])
  with a show ?thesis by (simp add: strip_def)
qed

lemma py_float_str_plain:
  assumes p: "plain s" and d: "decimal s = Some q"
  shows "py_float_str s = Inr (round_double q)"
proof -
  from p obtain x t where s: "s = x # t" and x: "is_digit x"
    by (cases s) (auto simp: plain_def)
  from p have "map to_ascii s = s" by (simp add: plain_def to_ascii_plain)
  moreover from p have "strip s = s"
    by (intro strip_id) (simp_all add: plain_def not_space_digit)
  moreover from x have "x \<noteq> 45" "x \<noteq> 43" "to_lower x = x"
    by (auto simp: is_digit_def to_lower_def)
  moreover from x have "x \<noteq> 105" "x \<noteq> 110" by (auto simp: is_digit_def)
  ultimately show ?thesis using d
    by (simp add: py_float_str_def Let_def s str_def)
qed

lemma py_float_str_minus_plain:
  assumes p: "plain s" and d: "decimal s = Some q"
  shows "py_float_str (45 # s) = Inr (float_neg (round_double q))"
proof -
  from p obtain x t where s: "s = x # t" and x: "is_digit x"
    by (cases s) (auto simp: plain_def)
  from p have "map to_ascii (45 # s) = 45 # s" by (simp add: plain_def to_ascii_plain to_ascii_def)
  moreover from p have "strip (45 # s) = 45 # s"
    by (intro strip_id) (auto simp: plain_def is_digit_def is_ascii_space_def)
  moreover from x have "to_lower x = x"
    by (auto simp: is_digit_def to_lower_def)
  moreover from x have "x \<noteq> 105" "x \<noteq> 110" by (auto simp: is_digit_def)
  ultimately show ?thesis using d
    by (simp add: py_float_str_def Let_def s str_def)
qed



lemma repr_pos_decimal:
  assumes d: "round_double q = Finite q" and pos: "0 < q"
  shows "plain (repr_pos q) \<and>
         (\<exists>v. decimal (repr_pos q) = Some v \<and> round_double v = Finite q)"
proof -
  from shortest_Some [OF d start_in_range [OF d pos]]
  obtain m s where sh: "shortest q (- floor_log10 q - 1) = Some (m, s)" by blast
  from shortest_sound [OF sh] have r: "round_double (of_int m * pow10 (- s)) = Finite q" .
  from shortest_nonneg [OF pos sh] have m: "0 \<le> m" .
  define ds where "ds = digits_of m"
  have dg: "\<forall>c\<in>set ds. is_digit c" using digits_of_digit [OF m] by (simp add: ds_def)
  have ne: "ds \<noteq> []" by (simp add: ds_def digits_of_nonempty)
  have v: "digits_val ds = m" by (simp add: ds_def digits_val_digits_of [OF m])
  have t: "repr_pos q = format_repr ds (int (length ds) - s)"
    by (simp add: repr_pos_def sh ds_def)
  have "decimal (repr_pos q) = Some (of_int m * pow10 (- s))"
    by (simp add: t decimal_format_repr [OF dg ne] v)
  moreover have "plain (repr_pos q)" unfolding t by (rule format_repr_plain [OF dg ne])
  ultimately show ?thesis using r by blast
qed

lemma float_repr_roundtrip:
  assumes "is_double x"
  shows "py_float_str (float_repr x) = Inr x"
proof (cases x)
  case (Finite q)
  with assms have d: "round_double q = Finite q" by (simp add: is_double_def)
  consider "q = 0" | "0 < q" | "q < 0" by linarith
  then show ?thesis
  proof cases
    case 1
    have "py_float_str (str ''0.0'') = Inr (round_double 0)"
      by (simp add: py_float_str_def strip_def to_ascii_def is_ascii_space_def str_def
          decimal_def exponent_def digits_val_def to_lower_def is_digit_def pow10_def Let_def)
    with 1 Finite show ?thesis by (simp add: float_repr_def round_double_def)
  next
    case 2
    from repr_pos_decimal [OF d 2] obtain v where
      "plain (repr_pos q)" "decimal (repr_pos q) = Some v" "round_double v = Finite q" by blast
    with py_float_str_plain [of "repr_pos q" v] 2 Finite show ?thesis
      by (simp add: float_repr_def)
  next
    case 3
    then have pos: "0 < - q" by simp
    from round_double_neg [OF 3] d have dn: "round_double (- q) = Finite (- q)"
      using 3 by simp
    from repr_pos_decimal [OF dn pos] obtain v where
      "plain (repr_pos (- q))" "decimal (repr_pos (- q)) = Some v"
      "round_double v = Finite (- q)" by blast
    with py_float_str_minus_plain [of "repr_pos (- q)" v] 3 Finite show ?thesis
      by (simp add: float_repr_def)
  qed
next
  case NegZero
  have "py_float_str (str ''-0.0'') = Inr (float_neg (round_double 0))"
    by (simp add: py_float_str_def strip_def to_ascii_def is_ascii_space_def str_def
        decimal_def exponent_def digits_val_def to_lower_def is_digit_def pow10_def Let_def)
  with NegZero show ?thesis by (simp add: float_repr_def round_double_def)
qed (use assms in \<open>simp_all add: is_double_def\<close>)

subsection \<open>Change detection and the cycle\<close>

lemma fmt_1999: "format_f 0 (Finite 1999) = str ''1,999''"
  by code_simp

lemma fmt_493_55: "format_f 2 f493_55 = str ''493.55''"
  by code_simp

lemma add_1999: "float_add (Finite 1999) f493_55 = Finite (2740587707813069 / 1099511627776)"
  by code_simp

lemma fmt_total: "format_f 2 (Finite (2740587707813069 / 1099511627776)) = str ''2,492.55''"
  by code_simp

lemma alert_1999:
  "alert_msg (Finite 1999) f493_55 =
     str ''Norwegian Prima price update'' @ [128674, 32, 10, 10] @
     str ''Base fare: $1,999'' @ [10] @
     str ''Taxes/fees: $493.55'' @ [10] @
     str ''Total: $2,492.55'' @ [10, 10] @ TARGET_URL"
  by (simp add: alert_msg_def fmt_1999 fmt_493_55 add_1999 fmt_total) (simp add: str_def)

lemma alert_1999_total: "contains (str ''Total: $2,492.55'') (alert_msg (Finite 1999) f493_55)"
  by (simp add: alert_1999 TARGET_URL_def str_def)

lemma alert_1999_plain: "\<not> contains (str ''$2492.55'') (alert_msg (Finite 1999) f493_55)"
  by (simp add: alert_1999 TARGET_URL_def str_def)

lemma float_eq_refl: "is_finite x \<Longrightarrow> float_eq x x"
  by (cases x) (simp_all add: is_finite_def)

lemma has_changed_None: "has_changed base taxes JNull = Inr True"
  by (simp add: has_changed_def)

lemma has_changed_pair:
  "has_changed base taxes (JList [JFloat b, JFloat t]) = Inr (\<not> (float_eq base b \<and> float_eq taxes t))"
  by (simp add: has_changed_def py_tuple_def pair_differs_def float_eq_json_def)

lemma has_changed_not_iterable:
  "not_iterable v \<Longrightarrow> has_changed base taxes v = Inl (not_iterable_error v)"
  by (cases v) (simp_all add: not_iterable_def has_changed_def py_tuple_def)

lemma load_last_value:
  assumes "files w path = Some content" and "open_read E path = None"
    and "json_loads L content = Inr v"
  shows "load_last L E w path = (Inr v, w)"
  using assms by (simp add: load_last_def)

lemma load_last_missing: "files w path = None \<Longrightarrow> load_last L E w path = (Inr JNull, w)"
  by (simp add: load_last_def)

lemma check_unchanged:
  assumes "load_last L E w (store_f cfg) = (Inr v, w)"
    and "has_changed base taxes v = Inr False"
  shows "check_and_notify L E cfg base taxes w = (None, w)"
  using assms by (simp add: check_and_notify_def)

lemma check_raises:
  assumes "load_last L E w (store_f cfg) = (Inr v, w)"
    and "has_changed base taxes v = Inl e"
  shows "check_and_notify L E cfg base taxes w = (Some e, w)"
  using assms by (simp add: check_and_notify_def)

lemma check_changed:
  assumes "load_last L E w (store_f cfg) = (Inr v, w)"
    and "has_changed base taxes v = Inr True"
    and "http_post E (telegram_url cfg) (chat_id cfg) (alert_msg base taxes) = None"
    and "open_write E (store_f cfg) = None"
  shows "check_and_notify L E cfg base taxes w =
           (None, w\<lparr>files := (files w)(store_f cfg \<mapsto> json_dumps L (JList [JFloat base, JFloat taxes])),
                    posts := posts w @ [(telegram_url cfg, chat_id cfg, alert_msg base taxes)]\<rparr>)"
  using assms
  by (simp add: check_and_notify_def send_telegram_def telegram_url_def save_last_def Let_def)

lemma f493_55_finite: "is_finite f493_55"
  by (simp add: is_finite_def f493_55_value)

text \<open>
  C2. The comparison of line 252 says "changed" when there is no previous snapshot, and
  for a stored pair exactly when the pairs differ under the equality of floats: for
  finite values, when the exact values differ, with no tolerance. With \<open>[1899.0, 493.55]\<close>
  stored and \<open>(1899.0, 493.55)\<close> extracted it says "unchanged", and the cycle posts
  nothing and changes nothing.
\<close>

theorem change_detection_exact:
  assumes "files w (store_f cfg) = Some content" and "open_read E (store_f cfg) = None"
    and "json_loads L content = Inr (JList [JFloat (Finite 1899), JFloat f493_55])"
  shows "has_changed base taxes JNull = Inr True \<and>
         has_changed base taxes (JList [JFloat b, JFloat t]) =
           Inr (\<not> (float_eq base b \<and> float_eq taxes t)) \<and>
         has_changed (Finite p) (Finite q) (JList [JFloat (Finite p'), JFloat (Finite q')]) =
           Inr (p \<noteq> p' \<or> q \<noteq> q') \<and>
         has_changed (Finite 1899) f493_55 (JList [JFloat (Finite 1899), JFloat f493_55]) = Inr False \<and>
         check_and_notify L E cfg (Finite 1899) f493_55 w = (None, w)"
proof -
  have same: "has_changed (Finite 1899) f493_55 (JList [JFloat (Finite 1899), JFloat f493_55]) = Inr False"
    by (simp add: has_changed_pair float_eq_refl f493_55_finite)
  have "load_last L E w (store_f cfg) = (Inr (JList [JFloat (Finite 1899), JFloat f493_55]), w)"
    using assms by (rule load_last_value)
  then have "check_and_notify L E cfg (Finite 1899) f493_55 w = (None, w)"
    using same by (rule check_unchanged)
  with same show ?thesis
    by (simp add: has_changed_None has_changed_pair)
qed

lemma default_store: "store_f default_config = str ''last_price.json''"
  by (simp add: default_config_def)

lemma stored_file: "files (stored content) (str ''last_price.json'') = Some content"
  by (simp add: stored_def)

lemma ok_env_simps:
  "open_read ok_env path = None" "open_write ok_env path = None"
  "http_post ok_env url chat text = None"
  by (simp_all add: ok_env_def)

lemma loads_snapshot: "toy_loads snapshot_text = Inr (JList [JFloat (Finite 1899), JFloat f493_55])"
  by (simp add: toy_loads_def snapshot_text_def offer_text_def str_def)

theorem change_detection_exact_witness:
  "check_and_notify (toy_libs empty_soup) ok_env default_config (Finite 1899) f493_55
     (stored snapshot_text) = (None, stored snapshot_text) \<and>
   posts (stored snapshot_text) = []"
proof -
  have h1: "files (stored snapshot_text) (store_f default_config) = Some snapshot_text"
    by (simp add: default_store stored_file)
  have h2: "open_read ok_env (store_f default_config) = None"
    by (rule ok_env_simps)
  have h3: "json_loads (toy_libs empty_soup) snapshot_text =
              Inr (JList [JFloat (Finite 1899), JFloat f493_55])"
    by (simp add: toy_libs_simps loads_snapshot)
  from change_detection_exact [OF h1 h2 h3]
  have "check_and_notify (toy_libs empty_soup) ok_env default_config (Finite 1899) f493_55
     (stored snapshot_text) = (None, stored snapshot_text)"
    by blast
  then show ?thesis by (simp add: stored_def world0_def)
qed

lemma loads_snapshot_1999: "toy_loads snapshot_text_1999 = Inr (JList [JFloat (Finite 1999), JFloat f493_55])"
  by (simp add: toy_loads_def snapshot_text_def snapshot_text_1999_def offer_text_def str_def)

lemma has_changed_1999:
  "has_changed (Finite 1999) f493_55 (JList [JFloat (Finite 1899), JFloat f493_55]) = Inr True"
  by (simp add: has_changed_pair)

text \<open>
  C3 (as amended). With \<open>[1899.0, 493.55]\<close> stored and \<open>(1999.0, 493.55)\<close> extracted, the
  comparison says "changed"; the cycle posts one message, whose text has the line
  \<open>Total: $2,492.55\<close> (the format \<open>,.2f\<close> groups the thousands), and, the POST accepted
  and the file written, the snapshot file holds \<open>[1999.0, 493.55]\<close>.
\<close>

theorem price_rise_notifies_and_stores:
  assumes "files w (store_f cfg) = Some content" and "open_read E (store_f cfg) = None"
    and "json_loads L content = Inr (JList [JFloat (Finite 1899), JFloat f493_55])"
    and "http_post E (telegram_url cfg) (chat_id cfg) (alert_msg (Finite 1999) f493_55) = None"
    and "open_write E (store_f cfg) = None"
  shows "has_changed (Finite 1999) f493_55 (JList [JFloat (Finite 1899), JFloat f493_55]) = Inr True \<and>
         check_and_notify L E cfg (Finite 1999) f493_55 w =
           (None,
            w\<lparr>files := (files w)(store_f cfg \<mapsto>
                          json_dumps L (JList [JFloat (Finite 1999), JFloat f493_55])),
               posts := posts w @ [(telegram_url cfg, chat_id cfg, alert_msg (Finite 1999) f493_55)]\<rparr>) \<and>
         contains (str ''Total: $2,492.55'') (alert_msg (Finite 1999) f493_55)"
proof -
  have "load_last L E w (store_f cfg) = (Inr (JList [JFloat (Finite 1899), JFloat f493_55]), w)"
    using assms(1-3) by (rule load_last_value)
  from check_changed [OF this has_changed_1999 assms(4,5)] has_changed_1999 alert_1999_total
  show ?thesis by simp
qed

theorem price_rise_notifies_and_stores_witness:
  "check_and_notify (toy_libs empty_soup) ok_env default_config (Finite 1999) f493_55
     (stored snapshot_text) =
   (None,
    \<lparr>files = [str ''last_price.json'' \<mapsto> snapshot_text_1999], stdout = [], logged = [],
     posts = [(telegram_url default_config, chat_id default_config,
               alert_msg (Finite 1999) f493_55)]\<rparr>) \<and>
   toy_loads snapshot_text_1999 = Inr (JList [JFloat (Finite 1999), JFloat f493_55])"
proof -
  have h1: "files (stored snapshot_text) (store_f default_config) = Some snapshot_text"
    by (simp add: default_store stored_file)
  have h2: "open_read ok_env (store_f default_config) = None"
    by (rule ok_env_simps)
  have h3: "json_loads (toy_libs empty_soup) snapshot_text =
              Inr (JList [JFloat (Finite 1899), JFloat f493_55])"
    by (simp add: toy_libs_simps loads_snapshot)
  have h4: "http_post ok_env (telegram_url default_config) (chat_id default_config)
              (alert_msg (Finite 1999) f493_55) = None"
    by (rule ok_env_simps)
  have h5: "open_write ok_env (store_f default_config) = None"
    by (rule ok_env_simps)
  have d: "toy_dumps (JList [JFloat (Finite 1999), JFloat f493_55]) = snapshot_text_1999"
    by (simp add: toy_dumps_def f493_55_value)
  from price_rise_notifies_and_stores [OF h1 h2 h3 h4 h5]
  have "check_and_notify (toy_libs empty_soup) ok_env default_config (Finite 1999) f493_55
     (stored snapshot_text) =
     (None,
      (stored snapshot_text)\<lparr>files := (files (stored snapshot_text))(store_f default_config \<mapsto>
                          json_dumps (toy_libs empty_soup) (JList [JFloat (Finite 1999), JFloat f493_55])),
               posts := posts (stored snapshot_text) @
                 [(telegram_url default_config, chat_id default_config, alert_msg (Finite 1999) f493_55)]\<rparr>)"
    by blast
  then show ?thesis
    by (simp add: stored_def world0_def default_store toy_libs_simps d loads_snapshot_1999)
qed

text \<open>
  C3 as stated fails: in that cycle the text posted does not contain \<open>$2492.55\<close>.
\<close>

theorem plain_total_counterexample:
  "check_and_notify (toy_libs empty_soup) ok_env default_config (Finite 1999) f493_55
     (stored snapshot_text) =
   (None,
    \<lparr>files = [str ''last_price.json'' \<mapsto> snapshot_text_1999], stdout = [], logged = [],
     posts = [(telegram_url default_config, chat_id default_config,
               alert_msg (Finite 1999) f493_55)]\<rparr>) \<and>
   \<not> contains (str ''$2492.55'') (alert_msg (Finite 1999) f493_55)"
proof -
  have l: "load_last (toy_libs empty_soup) ok_env (stored snapshot_text) (store_f default_config) =
      (Inr (JList [JFloat (Finite 1899), JFloat f493_55]), stored snapshot_text)"
  proof (rule load_last_value)
    show "files (stored snapshot_text) (store_f default_config) = Some snapshot_text"
      by (simp add: default_store stored_file)
    show "open_read ok_env (store_f default_config) = None"
      by (rule ok_env_simps)
    show "json_loads (toy_libs empty_soup) snapshot_text =
            Inr (JList [JFloat (Finite 1899), JFloat f493_55])"
      by (simp add: toy_libs_simps loads_snapshot)
  qed
  have d: "toy_dumps (JList [JFloat (Finite 1999), JFloat f493_55]) = snapshot_text_1999"
    by (simp add: toy_dumps_def f493_55_value)
  have "check_and_notify (toy_libs empty_soup) ok_env default_config (Finite 1999) f493_55
     (stored snapshot_text) =
     (None,
      (stored snapshot_text)\<lparr>files := (files (stored snapshot_text))(store_f default_config \<mapsto>
                          json_dumps (toy_libs empty_soup) (JList [JFloat (Finite 1999), JFloat f493_55])),
               posts := posts (stored snapshot_text) @
                 [(telegram_url default_config, chat_id default_config, alert_msg (Finite 1999) f493_55)]\<rparr>)"
    by (rule check_changed [OF l has_changed_1999]) (rule ok_env_simps)+
  then show ?thesis
    by (simp add: stored_def world0_def default_store toy_libs_simps d alert_1999_plain)
qed

lemma fetch_html_raises: "http_get E url = Inl e \<Longrightarrow> \<exists>e'. fetch_html E url = Inl e'"
  by (simp add: fetch_html_def)

lemma cycle_failed_fetch:
  assumes "http_get E TARGET_URL = Inl e"
  shows "\<exists>e'. fetch_html E TARGET_URL = Inl e' \<and>
           cycle L E cfg w =
             w\<lparr>logged := logged w @ [(ERROR, str ''Problem during check: '' @ msg e')]\<rparr>"
proof -
  from assms obtain e' where f: "fetch_html E TARGET_URL = Inl e'"
    using fetch_html_raises by blast
  then have "cycle L E cfg w =
      w\<lparr>logged := logged w @ [(ERROR, str ''Problem during check: '' @ msg e')]\<rparr>"
    by (simp add: cycle_def cycle_body_def)
  with f show ?thesis by blast
qed

lemma run_loop_failed_fetches:
  assumes "\<forall>E\<in>set Es. (\<exists>e. http_get E TARGET_URL = Inl e) \<and> sleep E (interval cfg * 60) = None"
  shows "fst (run_loop L cfg Es w) = None \<and>
         posts (snd (run_loop L cfg Es w)) = posts w \<and>
         files (snd (run_loop L cfg Es w)) = files w \<and>
         length (logged (snd (run_loop L cfg Es w))) = length (logged w) + length Es"
  using assms
proof (induction Es arbitrary: w)
  case Nil
  then show ?case by simp
next
  case (Cons E Es)
  then obtain e where e: "http_get E TARGET_URL = Inl e"
    and s: "sleep E (interval cfg * 60) = None" by auto
  from cycle_failed_fetch [OF e, of L cfg w] obtain e' where
    c: "cycle L E cfg w = w\<lparr>logged := logged w @ [(ERROR, str ''Problem during check: '' @ msg e')]\<rparr>"
    by blast
  have r: "run_loop L cfg (E # Es) w = run_loop L cfg Es (cycle L E cfg w)"
    using s by simp
  from Cons.prems have "\<forall>E\<in>set Es. (\<exists>e. http_get E TARGET_URL = Inl e) \<and> sleep E (interval cfg * 60) = None"
    by simp
  from Cons.IH [OF this, of "cycle L E cfg w"] r c show ?case by simp
qed

text \<open>
  C5 (as amended). When the fetch raises, the cycle ends with one error record logged
  and nothing else changed: no POST is made and no file is written, and the exception
  does not leave the \<open>try\<close> statement. The process goes on to the next cycle when the
  \<open>time.sleep\<close> of line 265 returns, that is for an interval that is not negative and
  that the system's clock accepts; then it stays alive through any number of such
  cycles.
\<close>

theorem failed_fetch_is_contained:
  assumes "http_get E TARGET_URL = Inl e"
    and "\<forall>E'\<in>set Es. (\<exists>e'. http_get E' TARGET_URL = Inl e') \<and>
                      sleep E' (interval cfg * 60) = None"
  shows "(\<exists>e'. fetch_html E TARGET_URL = Inl e' \<and>
            cycle L E cfg w =
              w\<lparr>logged := logged w @ [(ERROR, str ''Problem during check: '' @ msg e')]\<rparr>) \<and>
         posts (cycle L E cfg w) = posts w \<and>
         files (cycle L E cfg w) = files w \<and>
         (sleep E (interval cfg * 60) = None \<longleftrightarrow>
            0 \<le> interval cfg \<and> clock_sleep E (interval cfg * 60) = None) \<and>
         (sleep E (interval cfg * 60) = None \<longrightarrow>
            run_loop L cfg (E # Es) w = run_loop L cfg Es (cycle L E cfg w)) \<and>
         fst (run_loop L cfg Es w) = None \<and>
         posts (snd (run_loop L cfg Es w)) = posts w \<and>
         files (snd (run_loop L cfg Es w)) = files w \<and>
         length (logged (snd (run_loop L cfg Es w))) = length (logged w) + length Es"
proof -
  from cycle_failed_fetch [OF assms(1), of L cfg w] obtain e' where
    f: "fetch_html E TARGET_URL = Inl e'" and
    c: "cycle L E cfg w = w\<lparr>logged := logged w @ [(ERROR, str ''Problem during check: '' @ msg e')]\<rparr>"
    by blast
  have s: "sleep E (interval cfg * 60) = None \<longleftrightarrow>
            0 \<le> interval cfg \<and> clock_sleep E (interval cfg * 60) = None"
    by (auto simp: sleep_def)
  have r: "sleep E (interval cfg * 60) = None \<longrightarrow>
            run_loop L cfg (E # Es) w = run_loop L cfg Es (cycle L E cfg w)"
    by simp
  from f c s r run_loop_failed_fetches [OF assms(2), of L w] show ?thesis by simp
qed

lemma sleep_default: "sleep down_env (interval default_config * 60) = None"
  by (simp add: default_config_def sleep_def down_env_def ok_env_def)

lemma down_env_get:
  "http_get down_env TARGET_URL = Inl (Exn RequestException (str ''Max retries exceeded''))"
  by (simp add: down_env_def)

lemma down_env_fetch:
  "fetch_html down_env TARGET_URL =
     Inl (Exn Exception (str ''Failed to fetch HTML: Max retries exceeded''))"
  by (simp add: fetch_html_def down_env_get str_def)

lemma down_env_cycle:
  "cycle L down_env cfg w =
     w\<lparr>logged := logged w @
           [(ERROR, str ''Problem during check: Failed to fetch HTML: Max retries exceeded'')]\<rparr>"
  by (simp add: cycle_def cycle_body_def down_env_fetch str_def)

theorem failed_fetch_is_contained_witness:
  "cycle (toy_libs empty_soup) down_env default_config (stored snapshot_text) =
     (stored snapshot_text)
       \<lparr>logged := [(ERROR, str ''Problem during check: Failed to fetch HTML: Max retries exceeded'')]\<rparr> \<and>
   fst (run_loop (toy_libs empty_soup) default_config [down_env, down_env] (stored snapshot_text)) = None \<and>
   posts (snd (run_loop (toy_libs empty_soup) default_config [down_env, down_env]
                 (stored snapshot_text))) = [] \<and>
   files (snd (run_loop (toy_libs empty_soup) default_config [down_env, down_env]
                 (stored snapshot_text))) = [str ''last_price.json'' \<mapsto> snapshot_text]"
proof -
  have h2: "\<forall>E'\<in>set [down_env, down_env]. (\<exists>e'. http_get E' TARGET_URL = Inl e') \<and>
                      sleep E' (interval default_config * 60) = None"
    by (simp add: down_env_get sleep_default)
  from failed_fetch_is_contained [OF down_env_get h2, of "toy_libs empty_soup" "stored snapshot_text"]
  have "fst (run_loop (toy_libs empty_soup) default_config [down_env, down_env] (stored snapshot_text)) = None \<and>
        posts (snd (run_loop (toy_libs empty_soup) default_config [down_env, down_env]
                 (stored snapshot_text))) = posts (stored snapshot_text) \<and>
        files (snd (run_loop (toy_libs empty_soup) default_config [down_env, down_env]
                 (stored snapshot_text))) = files (stored snapshot_text)"
    by blast
  then show ?thesis
    by (simp add: down_env_cycle stored_def world0_def)
qed

lemma int_minus_1: "py_int_str (str ''-1'') = Inr (- 1)"
  by (simp add: py_int_str_def strip_def to_ascii_def is_ascii_space_def digits_val_def
      is_digit_def str_def Let_def)

text \<open>
  C5 as stated fails for a negative interval: with \<open>CHECK_INTERVAL_MIN\<close> set to \<open>-1\<close>, the
  cycle of a failed fetch logs its error, and the \<open>ValueError\<close> of \<open>time.sleep\<close> then ends
  the process before a second cycle.
\<close>

theorem negative_interval_counterexample:
  "startup [str ''CHECK_INTERVAL_MIN'' \<mapsto> str ''-1''] = Started (default_config\<lparr>interval := - 1\<rparr>) \<and>
   http_get down_env TARGET_URL = Inl (Exn RequestException (str ''Max retries exceeded'')) \<and>
   run_loop (toy_libs empty_soup) (default_config\<lparr>interval := - 1\<rparr>) [down_env, down_env]
     (stored snapshot_text) =
     (Some (Exn ValueError (str ''sleep length must be non-negative'')),
      (stored snapshot_text)
        \<lparr>logged := [(ERROR, str ''Problem during check: Failed to fetch HTML: Max retries exceeded'')]\<rparr>)"
proof -
  have a: "startup [str ''CHECK_INTERVAL_MIN'' \<mapsto> str ''-1''] = Started (default_config\<lparr>interval := - 1\<rparr>)"
    by (simp add: startup_def getenv_def int_minus_1 default_config_def Let_def) (simp add: str_def)
  have s: "sleep down_env (interval (default_config\<lparr>interval := - 1\<rparr>) * 60) =
             Some (Exn ValueError (str ''sleep length must be non-negative''))"
    by (simp add: sleep_def)
  have "run_loop (toy_libs empty_soup) (default_config\<lparr>interval := - 1\<rparr>) [down_env, down_env]
     (stored snapshot_text) =
     (Some (Exn ValueError (str ''sleep length must be non-negative'')),
      cycle (toy_libs empty_soup) down_env (default_config\<lparr>interval := - 1\<rparr>) (stored snapshot_text))"
    using s by simp
  with a down_env_get show ?thesis
    by (simp add: down_env_cycle stored_def world0_def)
qed






lemma load_last_JNull_iff:
  "fst (load_last L E w path) = Inr JNull \<longleftrightarrow>
     files w path = None \<or>
     (\<exists>content. files w path = Some content \<and>
        (open_read E path \<noteq> None \<or>
         (\<exists>e. json_loads L content = Inl e \<and>
              (is_a (cls e) JSONDecodeError \<or> is_a (cls e) OSError)) \<or>
         json_loads L content = Inr JNull))"
  by (auto simp: load_last_def split: option.splits sum.splits)

lemma cycle_check_raises:
  assumes "http_get E TARGET_URL = Inr html" and "parse_price L html = Inr (base, taxes)"
    and "check_and_notify L E cfg base taxes (w\<lparr>logged := logged w @ [(INFO, debug_msg base taxes)]\<rparr>) =
           (Some e, w\<lparr>logged := logged w @ [(INFO, debug_msg base taxes)]\<rparr>)"
  shows "cycle L E cfg w =
           w\<lparr>logged := logged w @ [(INFO, debug_msg base taxes),
                                    (ERROR, str ''Problem during check: '' @ msg e)]\<rparr>"
  using assms by (simp add: cycle_def cycle_body_def fetch_html_def)

text \<open>
  C9 (as amended). Valid JSON in the snapshot file is returned as it is, with no
  warning; it counts as "no prior data" only when it is \<open>null\<close>. When it is a number or
  a boolean, \<open>tuple\<close> raises a \<open>TypeError\<close> in the comparison: the cycle ends with the
  error logged, no POST made and no file written. \<open>load_last\<close> returns \<open>None\<close> exactly
  for a missing file, a failed read, a \<open>JSONDecodeError\<close> (or \<open>OSError\<close>) of the parser,
  and the content \<open>null\<close>.
\<close>

theorem valid_json_is_returned_as_is:
  assumes "files w (store_f cfg) = Some content" and "open_read E (store_f cfg) = None"
    and "json_loads L content = Inr v"
    and "http_get E TARGET_URL = Inr html" and "parse_price L html = Inr (base, taxes)"
  shows "load_last L E w (store_f cfg) = (Inr v, w) \<and>
         (fst (load_last L E w (store_f cfg)) = Inr JNull \<longleftrightarrow> v = JNull) \<and>
         (not_iterable v \<longrightarrow>
            cycle L E cfg w =
              w\<lparr>logged := logged w @
                    [(INFO, debug_msg base taxes),
                     (ERROR, str ''Problem during check: '' @ msg (not_iterable_error v))]\<rparr> \<and>
            posts (cycle L E cfg w) = posts w \<and> files (cycle L E cfg w) = files w) \<and>
         (\<forall>w' path. fst (load_last L E w' path) = Inr JNull \<longleftrightarrow>
            files w' path = None \<or>
            (\<exists>content. files w' path = Some content \<and>
               (open_read E path \<noteq> None \<or>
                (\<exists>e. json_loads L content = Inl e \<and>
                     (is_a (cls e) JSONDecodeError \<or> is_a (cls e) OSError)) \<or>
                json_loads L content = Inr JNull)))"
proof -
  have l: "load_last L E w (store_f cfg) = (Inr v, w)"
    using assms(1-3) by (rule load_last_value)
  have c: "cycle L E cfg w =
              w\<lparr>logged := logged w @
                    [(INFO, debug_msg base taxes),
                     (ERROR, str ''Problem during check: '' @ msg (not_iterable_error v))]\<rparr>"
    if n: "not_iterable v"
  proof -
    let ?w = "w\<lparr>logged := logged w @ [(INFO, debug_msg base taxes)]\<rparr>"
    have "load_last L E ?w (store_f cfg) = (Inr v, ?w)"
      using assms(1-3) by (simp add: load_last_def)
    then have "check_and_notify L E cfg base taxes ?w =
                 (Some (not_iterable_error v), ?w)"
      using has_changed_not_iterable [OF n] by (rule check_raises)
    from cycle_check_raises [OF assms(4,5) this] show ?thesis by simp
  qed
  from l c load_last_JNull_iff [of L E] show ?thesis by simp
qed


lemma loads_5: "toy_loads (str ''5'') = Inr (JInt 5)"
  by (simp add: toy_loads_def offer_text_def snapshot_text_def snapshot_text_1999_def str_def)

lemma loads_null: "toy_loads (str ''null'') = Inr JNull"
  by (simp add: toy_loads_def offer_text_def snapshot_text_def snapshot_text_1999_def str_def)

lemma page_b_parse: "parse_price (toy_libs page_b_soup) [] = Inr (Finite 1899, f493_55)"
  by (simp add: parse_price_def page_b_s1)

theorem valid_json_is_returned_as_is_witness:
  "load_last (toy_libs page_b_soup) ok_env (stored (str ''5'')) (str ''last_price.json'') =
     (Inr (JInt 5), stored (str ''5'')) \<and>
   cycle (toy_libs page_b_soup) ok_env default_config (stored (str ''5'')) =
     (stored (str ''5''))
       \<lparr>logged := [(INFO, debug_msg (Finite 1899) f493_55),
                   (ERROR, str ''Problem during check: '' @ [39] @ str ''int'' @ [39] @
                           str '' object is not iterable'')]\<rparr>"
proof -
  have h1: "files (stored (str ''5'')) (store_f default_config) = Some (str ''5'')"
    by (simp add: default_store stored_file)
  have h2: "open_read ok_env (store_f default_config) = None" by (rule ok_env_simps)
  have h3: "json_loads (toy_libs page_b_soup) (str ''5'') = Inr (JInt 5)"
    by (simp add: toy_libs_simps loads_5)
  have h4: "http_get ok_env TARGET_URL = Inr []" by (simp add: ok_env_def)
  have n: "not_iterable (JInt 5)" by (simp add: not_iterable_def)
  from valid_json_is_returned_as_is [OF h1 h2 h3 h4 page_b_parse] n
  show ?thesis
    by (simp add: default_store not_iterable_error_def type_name_def stored_def world0_def)
qed

text \<open>
  C9 as stated fails for the content \<open>null\<close>: valid JSON, no array of two numbers, and
  \<open>load_last\<close> returns \<open>None\<close> for it as for a missing file; the cycle posts an alert.
\<close>

theorem null_snapshot_counterexample:
  "toy_loads (str ''null'') = Inr JNull \<and>
   load_last (toy_libs page_b_soup) ok_env (stored (str ''null'')) (str ''last_price.json'') =
     (Inr JNull, stored (str ''null'')) \<and>
   load_last (toy_libs page_b_soup) ok_env world0 (str ''last_price.json'') = (Inr JNull, world0) \<and>
   posts (snd (check_and_notify (toy_libs page_b_soup) ok_env default_config (Finite 1899) f493_55
                 (stored (str ''null'')))) =
     [(telegram_url default_config, chat_id default_config, alert_msg (Finite 1899) f493_55)]"
proof -
  have l: "load_last (toy_libs page_b_soup) ok_env (stored (str ''null'')) (str ''last_price.json'') =
     (Inr JNull, stored (str ''null''))"
  proof (rule load_last_value)
    show "files (stored (str ''null'')) (str ''last_price.json'') = Some (str ''null'')"
      by (rule stored_file)
    show "open_read ok_env (str ''last_price.json'') = None"
      by (rule ok_env_simps)
    show "json_loads (toy_libs page_b_soup) (str ''null'') = Inr JNull"
      by (simp add: toy_libs_simps loads_null)
  qed
  have l0: "load_last (toy_libs page_b_soup) ok_env world0 (str ''last_price.json'') = (Inr JNull, world0)"
    by (rule load_last_missing) (simp add: world0_def)
  have "load_last (toy_libs page_b_soup) ok_env (stored (str ''null'')) (store_f default_config) =
     (Inr JNull, stored (str ''null''))"
    using l by (simp add: default_store)
  from check_changed [OF this has_changed_None ok_env_simps(3) ok_env_simps(2)]
  have "posts (snd (check_and_notify (toy_libs page_b_soup) ok_env default_config (Finite 1899) f493_55
                 (stored (str ''null'')))) =
     [(telegram_url default_config, chat_id default_config, alert_msg (Finite 1899) f493_55)]"
    by (simp add: stored_def world0_def)
  with l l0 loads_null show ?thesis by simp
qed

lemma int_1: "py_int_str (str ''1'') = Inr 1"
  by (simp add: py_int_str_def strip_def to_ascii_def is_ascii_space_def digits_val_def
      is_digit_def str_def Let_def)

text \<open>
  C4. The claim does not hold of the code: with an environment that sets neither
  \<open>TELEGRAM_BOT_TOKEN\<close> nor \<open>TELEGRAM_CHAT_ID\<close>, \<open>run\<close> enters the loop. It never exits
  with the message of line 232, and the credentials are those written in lines 227 and
  228, whatever the environment holds.
\<close>

theorem startup_ignores_telegram_environment:
  "startup Map.empty = Started default_config \<and>
   (\<forall>environ m. startup environ \<noteq> Exit m) \<and>
   (\<forall>environ cfg. startup environ = Started cfg \<longrightarrow>
      bot_token cfg = bot_token default_config \<and> chat_id cfg = chat_id default_config)"
proof -
  have a: "startup Map.empty = Started default_config"
    by (simp add: startup_def getenv_def int_1 default_config_def Let_def) (simp add: str_def)
  have b: "startup environ \<noteq> Exit m" for environ m
    by (simp add: startup_def Let_def str_def split: sum.splits)
  have c: "bot_token cfg = bot_token default_config \<and> chat_id cfg = chat_id default_config"
    if "startup environ = Started cfg" for environ cfg
    using that by (auto simp: startup_def Let_def default_config_def split: sum.splits if_splits)
  from a b c show ?thesis by blast
qed

theorem startup_ignores_telegram_environment_witness:
  "startup [str ''CHECK_INTERVAL_MIN'' \<mapsto> str ''1''] = Started default_config"
proof -
  have "\<exists>cfg. startup [str ''CHECK_INTERVAL_MIN'' \<mapsto> str ''1''] = Started cfg \<and> interval cfg = 1 \<and>
          store_f cfg = str ''last_price.json''"
    by (simp add: startup_def getenv_def int_1 Let_def) (simp add: str_def)
  then obtain cfg where s: "startup [str ''CHECK_INTERVAL_MIN'' \<mapsto> str ''1''] = Started cfg"
    and i: "interval cfg = 1" "store_f cfg = str ''last_price.json''" by blast
  from startup_ignores_telegram_environment s
  have "bot_token cfg = bot_token default_config \<and> chat_id cfg = chat_id default_config"
    by blast
  with i have "cfg = default_config" by (simp add: default_config_def)
  with s show ?thesis by simp
qed

subsection \<open>The round trip of the snapshot\<close>

lemma is_double_finite: "is_double x \<Longrightarrow> is_finite x"
  by (cases x) (simp_all add: is_double_def is_finite_def)

lemma shortest_1899: "shortest 1899 (- 4) = Some (1899, 0)"
  by code_simp

lemma shortest_493_55:
  "shortest (8682623422221517 / 17592186044416) (- 3) = Some (49355, 2)"
  by code_simp

lemma floor_log10_1899: "floor_log10 1899 = 3"
  by code_simp

lemma floor_log10_493_55: "floor_log10 (8682623422221517 / 17592186044416) = 2"
  by code_simp

lemma digits_1899: "digits_of 1899 = [49, 56, 57, 57]"
  by code_simp

lemma digits_49355: "digits_of 49355 = [52, 57, 51, 53, 53]"
  by code_simp

lemma repr_1899: "float_repr (Finite 1899) = str ''1899.0''"
  by (simp add: float_repr_def repr_pos_def floor_log10_1899 shortest_1899 digits_1899
      format_repr_def str_def)

lemma repr_493_55: "float_repr f493_55 = str ''493.55''"
  by (simp add: f493_55_value float_repr_def repr_pos_def floor_log10_493_55 shortest_493_55
      digits_49355 format_repr_def str_def)

lemma double_1899: "is_double (Finite 1899)"
  by (simp add: is_double_def rd_1899)

lemma rd_f493_55:
  "round_double (8682623422221517 / 17592186044416) = Finite (8682623422221517 / 17592186044416)"
  by code_simp

lemma double_493_55: "is_double f493_55"
  by (simp add: is_double_def f493_55_value rd_f493_55)

lemma snapshot_pair_text:
  "pair_text (float_repr (Finite 1899)) (float_repr f493_55) = snapshot_text"
  by (simp add: pair_text_def repr_1899 repr_493_55 snapshot_text_def str_def)

text \<open>
  C6. For every pair of finite floats, \<open>load_last\<close> after \<open>save_last\<close> on the same path
  returns the pair saved, equal to it under the comparison of line 252, when the write
  and the read meet no \<open>OSError\<close>. Of the \<open>json\<close> module two facts are used:
  \<open>json.dump\<close> with \<open>indent=2\<close> writes the pair as an array of the two texts that
  \<open>float.__repr__\<close> gives, and \<open>json.load\<close> reads the two number literals of that array
  with \<open>float\<close>. That \<open>float\<close> reads back the double that \<open>float.__repr__\<close> wrote is
  proved, not assumed; it fails for an infinity and for a NaN, whose texts
  \<open>float.__repr__\<close> does not write as digits.
\<close>

theorem save_then_load_roundtrip:
  assumes "is_double base" and "is_double taxes"
    and "open_write E path = None" and "open_read E' path = None"
    and dumps: "json_dumps L (JList [JFloat base, JFloat taxes]) =
                  pair_text (float_repr base) (float_repr taxes)"
    and loads: "\<And>x y. py_float_str (float_repr base) = Inr x \<Longrightarrow>
                  py_float_str (float_repr taxes) = Inr y \<Longrightarrow>
                  json_loads L (pair_text (float_repr base) (float_repr taxes)) =
                    Inr (JList [JFloat x, JFloat y])"
  shows "load_last L E' (save_last L E w path (JList [JFloat base, JFloat taxes])) path =
           (Inr (JList [JFloat base, JFloat taxes]),
            save_last L E w path (JList [JFloat base, JFloat taxes])) \<and>
         has_changed base taxes (JList [JFloat base, JFloat taxes]) = Inr False"
proof -
  have b: "py_float_str (float_repr base) = Inr base"
    by (rule float_repr_roundtrip [OF assms(1)])
  have t: "py_float_str (float_repr taxes) = Inr taxes"
    by (rule float_repr_roundtrip [OF assms(2)])
  have r: "json_loads L (json_dumps L (JList [JFloat base, JFloat taxes])) =
             Inr (JList [JFloat base, JFloat taxes])"
    unfolding dumps by (rule loads [OF b t])
  have "float_eq base base" and "float_eq taxes taxes"
    using assms(1,2) by (simp_all add: float_eq_refl is_double_finite)
  then have "has_changed base taxes (JList [JFloat base, JFloat taxes]) = Inr False"
    by (simp add: has_changed_pair)
  with r assms(3,4) show ?thesis
    by (simp add: save_last_def load_last_def)
qed

theorem save_then_load_roundtrip_witness:
  "load_last (toy_libs empty_soup) ok_env
     (save_last (toy_libs empty_soup) ok_env world0 (str ''last_price.json'')
        (JList [JFloat (Finite 1899), JFloat f493_55]))
     (str ''last_price.json'') =
   (Inr (JList [JFloat (Finite 1899), JFloat f493_55]), stored snapshot_text) \<and>
   float_repr (Finite 1899) = str ''1899.0'' \<and> float_repr f493_55 = str ''493.55''"
proof -
  have h3: "open_write ok_env (str ''last_price.json'') = None" by (rule ok_env_simps)
  have h4: "open_read ok_env (str ''last_price.json'') = None" by (rule ok_env_simps)
  have d: "toy_dumps (JList [JFloat (Finite 1899), JFloat f493_55]) = snapshot_text"
    by (simp add: toy_dumps_def)
  have h5: "json_dumps (toy_libs empty_soup) (JList [JFloat (Finite 1899), JFloat f493_55]) =
              pair_text (float_repr (Finite 1899)) (float_repr f493_55)"
    by (simp add: toy_libs_simps d snapshot_pair_text)
  have p1: "py_float_str (str ''1899.0'') = Inr (Finite 1899)"
    by (simp add: float_str_simps eval_simps rd_1899)
  have p2: "py_float_str (str ''493.55'') = Inr f493_55"
    by (simp add: float_str_simps eval_simps rd_493_55 f493_55_value)
  have h6: "json_loads (toy_libs empty_soup)
              (pair_text (float_repr (Finite 1899)) (float_repr f493_55)) =
            Inr (JList [JFloat x, JFloat y])"
    if a: "py_float_str (float_repr (Finite 1899)) = Inr x"
      and b: "py_float_str (float_repr f493_55) = Inr y" for x y
  proof -
    from a have "x = Finite 1899" by (simp add: repr_1899 p1)
    moreover from b have "y = f493_55" by (simp add: repr_493_55 p2)
    ultimately show ?thesis
      by (simp only: snapshot_pair_text toy_libs_simps loads_snapshot)
  qed
  have s: "save_last (toy_libs empty_soup) ok_env world0 (str ''last_price.json'')
        (JList [JFloat (Finite 1899), JFloat f493_55]) = stored snapshot_text"
    by (simp add: save_last_def ok_env_simps toy_libs_simps d stored_def world0_def)
  from save_then_load_roundtrip [OF double_1899 double_493_55 h3 h4 h5 h6, of world0]
  show ?thesis by (simp add: s repr_1899 repr_493_55)
qed

end
